theory Spec2Isabelle
  imports Main "HOL-Library.Word" "HOL-Library.AList"
begin

unbundle bit_operations_syntax

section \<open>Bytes, strings and errors\<close>

text \<open>
  Go's \<^verbatim>\<open>[]byte\<close> is a list of 8-bit words, Go's \<^verbatim>\<open>string\<close> is a list of
  \<^typ>\<open>char\<close> (one \<^typ>\<open>char\<close> per byte). The conversions \<^verbatim>\<open>[]byte(s)\<close> and
  \<^verbatim>\<open>string(b)\<close> copy the bytes.
\<close>

type_synonym byte = "8 word"
type_synonym bytes = "byte list"

definition bytes_of_string :: "string \<Rightarrow> bytes" where
  "bytes_of_string s = map (\<lambda>c. of_nat (of_char c)) s"

definition string_of_bytes :: "bytes \<Rightarrow> string" where
  "string_of_bytes b = map (\<lambda>w. char_of (unat w)) b"

text \<open>
  Every error value the modelled functions return. A constructor stands for one
  \<^verbatim>\<open>fmt.Errorf\<close>/\<^verbatim>\<open>errors.New\<close> site (or one \<^verbatim>\<open>os.Exit(1)\<close> site of a command
  handler); wrapped errors (\<^verbatim>\<open>%w\<close>) keep the wrapped value.
\<close>

datatype error =
    InvalidKeySize nat nat              \<comment> \<open>"invalid key size: expected %d bytes, got %d"\<close>
  | CiphertextTooShort                  \<comment> \<open>"ciphertext too short"\<close>
  | DecryptionFailed                    \<comment> \<open>"decryption failed: %w" (AEAD authentication)\<close>
  | FailedToGenerateNonce               \<comment> \<open>"failed to generate nonce: %w"\<close>
  | FailedToGenerateSalt                \<comment> \<open>"failed to generate salt: %w"\<close>
  | InvalidSaltSize nat nat             \<comment> \<open>"invalid salt size: expected %d bytes, got %d"\<close>
  | UnknownAlgorithm string             \<comment> \<open>"unknown algorithm: %s (supported: ...)"\<close>
  | FileTooSmallOrCorrupted             \<comment> \<open>"Error: file too small or corrupted"\<close>
  | ErrorDerivingKey error              \<comment> \<open>"Error deriving key:"\<close>
  | ErrorNewEncryptor error             \<comment> \<open>"Error:" after NewEncryptor\<close>
  | ErrorEncrypting error               \<comment> \<open>"Error encrypting:"\<close>
  | ErrorDecrypting error               \<comment> \<open>"Error decrypting (wrong password?):"\<close>
  | UnsupportedAlgorithmForKey string string error
      \<comment> \<open>"unsupported algorithm '%s' for key '%s': %w"\<close>
  | FailedToDecodeBase64ForKey string   \<comment> \<open>"failed to decode base64 for key '%s': %w"\<close>
  | FailedToDecryptKey string error     \<comment> \<open>"failed to decrypt key '%s': %w"\<close>
  | FailedToEncryptKey string error     \<comment> \<open>"failed to encrypt key '%s': %w"\<close>
  | FailedToReadFile                    \<comment> \<open>"failed to read file: %w" (bufio.ErrTooLong)\<close>
  | PathError string string             \<comment> \<open>an \<^verbatim>\<open>*fs.PathError\<close> of the os package: operation, path\<close>
  | ErrBadPattern                       \<comment> \<open>filepath.ErrBadPattern\<close>
  | InvalidAgePublicKey                 \<comment> \<open>"invalid Age public key (should start with 'age1')"\<close>
  | RecipientAlreadyExists              \<comment> \<open>"recipient with this key already exists"\<close>
  | FailedToMarshalConfig               \<comment> \<open>"failed to marshal config: %w"\<close>
  | FailedToWriteConfig error           \<comment> \<open>"failed to write config: %w"\<close>
  | NoRecipientsConfigured              \<comment> \<open>"no recipients configured. Add with ..."\<close>
  | NoAgeIdentityFound                  \<comment> \<open>"no Age identity found. Generate with ..."\<close>
  | FailedToGetHomeDirectory            \<comment> \<open>"failed to get home directory: %w"\<close>
  | FailedToReadAgeKeyFile error        \<comment> \<open>"failed to read age key file: %w"\<close>
  | NoAgeIdentityIn string              \<comment> \<open>"no age identity found in %s"\<close>
  | InvalidRecipient string             \<comment> \<open>"invalid recipient '%s': %w"\<close>
  | FailedToCreateAgeEncryptor          \<comment> \<open>"failed to create age encryptor: %w"\<close>
  | InvalidIdentity                     \<comment> \<open>"invalid identity: %w"\<close>
  | AgeFailedToDecrypt                  \<comment> \<open>"failed to decrypt: %w"\<close>
  | InvalidBase64ForKey string          \<comment> \<open>"invalid base64 for key '%s': %w"\<close>
  | FailedToEncrypt string error        \<comment> \<open>"failed to encrypt %s: %w"\<close>
  | FailedToDecrypt string error        \<comment> \<open>"failed to decrypt %s: %w"\<close>
  | FailedToWrite string error          \<comment> \<open>"failed to write %s: %w"\<close>

section \<open>The data model\<close>

text \<open>project/project.go: a recipient, the configuration of \<^verbatim>\<open>.podx.yaml\<close>, a project.\<close>

record Recipient =
  RecipientName :: string     \<comment> \<open>field \<^verbatim>\<open>Name\<close>\<close>
  RecipientKey :: string      \<comment> \<open>field \<^verbatim>\<open>Key\<close>\<close>

record Config =
  Version :: int
  Backend :: string
  Recipients :: "Recipient list"
  Secrets :: "string list"

record Project =
  RootDir :: string
  Config :: Config


section \<open>External primitives\<close>

text \<open>
  The cryptographic primitives, base64, the age library, path matching and the YAML
  encoder are library code; the program only composes them. They are parameters of the
  model, collected in one record. An AEAD is its \<^verbatim>\<open>Seal(nonce, nonce, plaintext, nil)\<close>
  without the destination prefix (key, nonce, plaintext to sealed data) and its
  \<^verbatim>\<open>Open(nil, nonce, data, nil)\<close> (\<open>None\<close> when authentication fails).
  \<^verbatim>\<open>age.Encrypt\<close> with the parsed recipients and the writes that follow are one function
  of the recipient strings and the plaintext (\<open>None\<close> when one of the calls fails); the
  ephemeral randomness of age is inside that parameter. \<^verbatim>\<open>filepath.Match\<close> is split into
  the test for a malformed pattern and the match itself.
\<close>

record aead =
  aead_Seal :: "bytes \<Rightarrow> bytes \<Rightarrow> bytes \<Rightarrow> bytes"
  aead_Open :: "bytes \<Rightarrow> bytes \<Rightarrow> bytes \<Rightarrow> bytes option"

record ext =
  argon2_IDKey :: "bytes \<Rightarrow> bytes \<Rightarrow> nat \<Rightarrow> nat \<Rightarrow> nat \<Rightarrow> nat \<Rightarrow> bytes"
  aes_gcm :: aead
  chacha20poly1305 :: aead
  base64_EncodeToString :: "bytes \<Rightarrow> string"
  base64_DecodeString :: "string \<Rightarrow> bytes option"
  age_ParseX25519Recipient :: "string \<Rightarrow> bool"
  age_Encrypt :: "string list \<Rightarrow> bytes \<Rightarrow> bytes option"
  age_ParseX25519Identity :: "string \<Rightarrow> bool"
  age_Decrypt :: "string \<Rightarrow> bytes \<Rightarrow> bytes option"
  filepath_Join :: "string \<Rightarrow> string \<Rightarrow> string"
  filepath_Rel :: "string \<Rightarrow> string \<Rightarrow> string"
  filepath_Base :: "string \<Rightarrow> string"
  filepath_Match :: "string \<Rightarrow> string \<Rightarrow> bool"
  filepath_BadPattern :: "string \<Rightarrow> bool"
  yaml_Marshal :: "Config \<Rightarrow> bytes option"
  os_UserHomeDir :: "string option"

text \<open>
  \<^verbatim>\<open>io.ReadFull(rand.Reader, buf)\<close> with \<open>len(buf) = n\<close>: the entropy still to be
  delivered by the operating system is a tape of bytes; the read takes the first \<open>n\<close>
  of them, and fails when the source delivers fewer.
\<close>

definition rand_ReadFull :: "nat \<Rightarrow> bytes \<Rightarrow> (bytes \<times> bytes) option" where
  "rand_ReadFull n tape =
     (if length tape < n then None else Some (take n tape, drop n tape))"

section \<open>crypto/aes\_gcm.go and crypto/chacha.go\<close>

definition AESKeySize :: nat where "AESKeySize = 32"
definition AESNonceSize :: nat where "AESNonceSize = 12"
definition ChaChaKeySize :: nat where "ChaChaKeySize = 32"
definition ChaChaNonceSize :: nat where "ChaChaNonceSize = 12"

text \<open>
  Encryption returns the result and the entropy left. The key-size test comes first:
  with a key of another size nothing is read from the random source and nothing is
  sealed. The output is the nonce followed by the sealed data.
\<close>

definition AESGCMEncrypt ::
  "ext \<Rightarrow> bytes \<Rightarrow> bytes \<Rightarrow> bytes \<Rightarrow> (error + bytes) \<times> bytes" where
  "AESGCMEncrypt X plaintext key tape =
     (if length key \<noteq> AESKeySize then (Inl (InvalidKeySize AESKeySize (length key)), tape)
      else case rand_ReadFull AESNonceSize tape of
             None \<Rightarrow> (Inl FailedToGenerateNonce, tape)
           | Some (nonce, tape') \<Rightarrow>
               (Inr (nonce @ aead_Seal (aes_gcm X) key nonce plaintext), tape'))"

definition AESGCMDecrypt :: "ext \<Rightarrow> bytes \<Rightarrow> bytes \<Rightarrow> error + bytes" where
  "AESGCMDecrypt X ciphertext key =
     (if length key \<noteq> AESKeySize then Inl (InvalidKeySize AESKeySize (length key))
      else if length ciphertext < AESNonceSize then Inl CiphertextTooShort
      else case aead_Open (aes_gcm X) key (take AESNonceSize ciphertext)
                  (drop AESNonceSize ciphertext) of
             None \<Rightarrow> Inl DecryptionFailed
           | Some plaintext \<Rightarrow> Inr plaintext)"

definition ChaCha20Encrypt ::
  "ext \<Rightarrow> bytes \<Rightarrow> bytes \<Rightarrow> bytes \<Rightarrow> (error + bytes) \<times> bytes" where
  "ChaCha20Encrypt X plaintext key tape =
     (if length key \<noteq> ChaChaKeySize
      then (Inl (InvalidKeySize ChaChaKeySize (length key)), tape)
      else case rand_ReadFull ChaChaNonceSize tape of
             None \<Rightarrow> (Inl FailedToGenerateNonce, tape)
           | Some (nonce, tape') \<Rightarrow>
               (Inr (nonce @ aead_Seal (chacha20poly1305 X) key nonce plaintext), tape'))"

definition ChaCha20Decrypt :: "ext \<Rightarrow> bytes \<Rightarrow> bytes \<Rightarrow> error + bytes" where
  "ChaCha20Decrypt X ciphertext key =
     (if length key \<noteq> ChaChaKeySize then Inl (InvalidKeySize ChaChaKeySize (length key))
      else if length ciphertext < ChaChaNonceSize then Inl CiphertextTooShort
      else case aead_Open (chacha20poly1305 X) key (take ChaChaNonceSize ciphertext)
                  (drop ChaChaNonceSize ciphertext) of
             None \<Rightarrow> Inl DecryptionFailed
           | Some plaintext \<Rightarrow> Inr plaintext)"

section \<open>crypto/crypto.go: the algorithm registry\<close>

definition AlgoAESGCM :: string where "AlgoAESGCM = ''aes-gcm''"
definition AlgoChaCha20 :: string where "AlgoChaCha20 = ''chacha20''"

datatype Encryptor = aesGCMEncryptor | chaCha20Encryptor

fun Encrypt ::
  "ext \<Rightarrow> Encryptor \<Rightarrow> bytes \<Rightarrow> bytes \<Rightarrow> bytes \<Rightarrow> (error + bytes) \<times> bytes" where
  "Encrypt X aesGCMEncryptor plaintext key tape = AESGCMEncrypt X plaintext key tape"
| "Encrypt X chaCha20Encryptor plaintext key tape = ChaCha20Encrypt X plaintext key tape"

fun Decrypt :: "ext \<Rightarrow> Encryptor \<Rightarrow> bytes \<Rightarrow> bytes \<Rightarrow> error + bytes" where
  "Decrypt X aesGCMEncryptor ciphertext key = AESGCMDecrypt X ciphertext key"
| "Decrypt X chaCha20Encryptor ciphertext key = ChaCha20Decrypt X ciphertext key"

fun Name :: "Encryptor \<Rightarrow> string" where
  "Name aesGCMEncryptor = AlgoAESGCM"
| "Name chaCha20Encryptor = AlgoChaCha20"

definition NewEncryptor :: "string \<Rightarrow> error + Encryptor" where
  "NewEncryptor algo =
     (if algo = AlgoAESGCM then Inr aesGCMEncryptor
      else if algo = AlgoChaCha20 then Inr chaCha20Encryptor
      else Inl (UnknownAlgorithm algo))"

section \<open>Key derivation\<close>

definition argon2Time :: nat where "argon2Time = 3"
definition argon2Memory :: nat where "argon2Memory = 64 * 1024"
definition argon2Threads :: nat where "argon2Threads = 4"
definition argon2KeyLen :: nat where "argon2KeyLen = 32"
definition SaltSize :: nat where "SaltSize = 16"

text \<open>
  \<^verbatim>\<open>DeriveKey(password, salt)\<close>: a \<^verbatim>\<open>nil\<close> salt (\<open>None\<close>) is drawn from the random
  source. Returns key and salt, and the entropy left.
\<close>

definition DeriveKey ::
  "ext \<Rightarrow> bytes \<Rightarrow> bytes option \<Rightarrow> bytes \<Rightarrow> (error + bytes \<times> bytes) \<times> bytes" where
  "DeriveKey X password salt tape =
     (case (case salt of
              None \<Rightarrow> (case rand_ReadFull SaltSize tape of
                          None \<Rightarrow> (Inl FailedToGenerateSalt, tape)
                        | Some (s, tape') \<Rightarrow> (Inr s, tape'))
            | Some s \<Rightarrow> (Inr s, tape)) of
        (Inl e, tape') \<Rightarrow> (Inl e, tape')
      | (Inr s, tape') \<Rightarrow>
          if length s \<noteq> SaltSize then (Inl (InvalidSaltSize SaltSize (length s)), tape')
          else (Inr (argon2_IDKey X password s argon2Time argon2Memory argon2Threads
                       argon2KeyLen, s), tape'))"

text \<open>
  \<^verbatim>\<open>DeriveKeyWithSalt(password, salt)\<close>. The second component of the result counts the
  invocations of Argon2id, the expensive work of the program: none when the salt is
  rejected, one otherwise.
\<close>

definition DeriveKeyWithSalt :: "ext \<Rightarrow> bytes \<Rightarrow> bytes \<Rightarrow> (error + bytes) \<times> nat" where
  "DeriveKeyWithSalt X password salt =
     (if length salt \<noteq> SaltSize then (Inl (InvalidSaltSize SaltSize (length salt)), 0)
      else (Inr (argon2_IDKey X password salt argon2Time argon2Memory argon2Threads
                   argon2KeyLen), 1))"

section \<open>The symmetric envelope: the encrypt and decrypt commands\<close>

text \<open>
  \<^verbatim>\<open>handleEncrypt\<close> from the point where the flags are parsed and the paths checked:
  \<open>algo\<close> is the \<^verbatim>\<open>-a\<close> flag, \<open>pass\<close> the password returned by \<^verbatim>\<open>getPassword\<close>,
  \<open>plaintext\<close> the content read from the input file. The result is the error the
  command exits with, or the bytes it writes to the output file:
  salt, algorithm byte, ciphertext.
\<close>

definition handleEncrypt ::
  "ext \<Rightarrow> string \<Rightarrow> string \<Rightarrow> bytes \<Rightarrow> bytes \<Rightarrow> error + bytes" where
  "handleEncrypt X algo pass plaintext tape =
     (case DeriveKey X (bytes_of_string pass) None tape of
        (Inl e, _) \<Rightarrow> Inl (ErrorDerivingKey e)
      | (Inr (key, salt), tape1) \<Rightarrow>
          (case NewEncryptor algo of
             Inl e \<Rightarrow> Inl (ErrorNewEncryptor e)
           | Inr enc \<Rightarrow>
               (case Encrypt X enc plaintext key tape1 of
                  (Inl e, _) \<Rightarrow> Inl (ErrorEncrypting e)
                | (Inr ciphertext, _) \<Rightarrow>
                    (let algoB = (if algo = ''chacha20'' then 1 else 0 :: byte)
                     in Inr ((salt @ [algoB]) @ ciphertext)))))"

text \<open>
  \<^verbatim>\<open>handleDecrypt\<close> from the point where the input file has been read into \<open>data\<close>.
  The result is the number of Argon2id invocations made, and the error the command
  exits with or the plaintext it writes to the output file.
\<close>

definition handleDecrypt :: "ext \<Rightarrow> string \<Rightarrow> bytes \<Rightarrow> nat \<times> (error + bytes)" where
  "handleDecrypt X pass data =
     (if length data < SaltSize + 1 then (0, Inl FileTooSmallOrCorrupted)
      else
        let salt = take SaltSize data;
            algoB = data ! SaltSize;
            ciphertext = drop (SaltSize + 1) data;
            algo = (if algoB = 1 then AlgoChaCha20 else AlgoAESGCM)
        in case DeriveKeyWithSalt X (bytes_of_string pass) salt of
             (Inl e, calls) \<Rightarrow> (calls, Inl (ErrorDerivingKey e))
           | (Inr key, calls) \<Rightarrow>
               (case NewEncryptor algo of
                  Inl e \<Rightarrow> (calls, Inl (ErrorNewEncryptor e))
                | Inr enc \<Rightarrow>
                    (case Decrypt X enc ciphertext key of
                       Inl e \<Rightarrow> (calls, Inl (ErrorDecrypting e))
                     | Inr plaintext \<Rightarrow> (calls, Inr plaintext))))"

section \<open>The strings package\<close>

definition HasPrefix :: "string \<Rightarrow> string \<Rightarrow> bool" where
  "HasPrefix s prefix \<longleftrightarrow> take (length prefix) s = prefix"

definition HasSuffix :: "string \<Rightarrow> string \<Rightarrow> bool" where
  "HasSuffix s suffix \<longleftrightarrow>
     length suffix \<le> length s \<and> drop (length s - length suffix) s = suffix"

definition TrimPrefix :: "string \<Rightarrow> string \<Rightarrow> string" where
  "TrimPrefix s prefix = (if HasPrefix s prefix then drop (length prefix) s else s)"

definition TrimSuffix :: "string \<Rightarrow> string \<Rightarrow> string" where
  "TrimSuffix s suffix = (if HasSuffix s suffix then take (length s - length suffix) s else s)"

text \<open>\<^verbatim>\<open>strings.Index(s, "=")\<close> for a one-byte separator: \<open>None\<close> is Go's \<open>-1\<close>.\<close>

definition Index :: "string \<Rightarrow> char \<Rightarrow> nat option" where
  "Index s c = (if c \<in> set s then Some (length (takeWhile (\<lambda>x. x \<noteq> c) s)) else None)"

text \<open>
  \<^verbatim>\<open>strings.Split(s, "\n")\<close>: the pieces between the newlines, one more than there are
  newlines. \<^verbatim>\<open>strings.Join(xs, "\n")\<close> is its inverse.
\<close>

fun Split_acc :: "string \<Rightarrow> string \<Rightarrow> string list" where
  "Split_acc cur [] = [cur]"
| "Split_acc cur (c # cs) =
     (if c = CHR 0x0A then cur # Split_acc [] cs else Split_acc (cur @ [c]) cs)"

definition Split :: "string \<Rightarrow> string list" where
  "Split s = Split_acc [] s"

fun Join :: "string list \<Rightarrow> string" where
  "Join [] = []"
| "Join [x] = x"
| "Join (x # y # ys) = x @ [CHR 0x0A] @ Join (y # ys)"

text \<open>
  \<^verbatim>\<open>strings.TrimSpace\<close> removes the leading and the trailing white space as Unicode
  defines it. A Go string is UTF-8: the white-space code points are the byte sequences
  below (U+0009 to U+000D, U+0020, U+0085, U+00A0, U+1680, U+2000 to U+200A, U+2028,
  U+2029, U+202F, U+205F, U+3000). An encoding of a code point is never a proper prefix
  or suffix of another, so the first (last) rune is white space exactly when one of the
  sequences is a prefix (suffix).
\<close>

definition unicodeSpaces :: "string list" where
  "unicodeSpaces =
     [[CHR 0x09], [CHR 0x0A], [CHR 0x0B], [CHR 0x0C], [CHR 0x0D], [CHR 0x20],
      [CHR 0xC2, CHR 0x85], [CHR 0xC2, CHR 0xA0], [CHR 0xE1, CHR 0x9A, CHR 0x80],
      [CHR 0xE2, CHR 0x80, CHR 0x80], [CHR 0xE2, CHR 0x80, CHR 0x81],
      [CHR 0xE2, CHR 0x80, CHR 0x82], [CHR 0xE2, CHR 0x80, CHR 0x83],
      [CHR 0xE2, CHR 0x80, CHR 0x84], [CHR 0xE2, CHR 0x80, CHR 0x85],
      [CHR 0xE2, CHR 0x80, CHR 0x86], [CHR 0xE2, CHR 0x80, CHR 0x87],
      [CHR 0xE2, CHR 0x80, CHR 0x88], [CHR 0xE2, CHR 0x80, CHR 0x89],
      [CHR 0xE2, CHR 0x80, CHR 0x8A], [CHR 0xE2, CHR 0x80, CHR 0xA8],
      [CHR 0xE2, CHR 0x80, CHR 0xA9], [CHR 0xE2, CHR 0x80, CHR 0xAF],
      [CHR 0xE2, CHR 0x81, CHR 0x9F], [CHR 0xE3, CHR 0x80, CHR 0x80]]"

definition leadingSpace :: "string \<Rightarrow> nat" where
  "leadingSpace s = (case find (HasPrefix s) unicodeSpaces of None \<Rightarrow> 0 | Some w \<Rightarrow> length w)"

definition trailingSpace :: "string \<Rightarrow> nat" where
  "trailingSpace s = (case find (HasSuffix s) unicodeSpaces of None \<Rightarrow> 0 | Some w \<Rightarrow> length w)"

lemma leadingSpace_le: "leadingSpace s \<le> length s"
proof (cases "find (HasPrefix s) unicodeSpaces")
  case None
  then show ?thesis by (simp add: leadingSpace_def)
next
  case (Some w)
  then have "HasPrefix s w" by (auto simp: find_Some_iff)
  then have "length (take (length w) s) = length w"
    by (simp add: HasPrefix_def)
  then have "length w \<le> length s" by simp
  with Some show ?thesis by (simp add: leadingSpace_def)
qed

lemma trailingSpace_le: "trailingSpace s \<le> length s"
  by (auto simp: trailingSpace_def HasSuffix_def find_Some_iff split: option.splits)

function trimLeft :: "string \<Rightarrow> string" where
  "trimLeft s = (if leadingSpace s = 0 then s else trimLeft (drop (leadingSpace s) s))"
  by pat_completeness auto
termination
proof (relation "measure length")
  fix s :: string
  assume "leadingSpace s \<noteq> 0"
  moreover have "leadingSpace s \<le> length s" by (rule leadingSpace_le)
  ultimately show "(drop (leadingSpace s) s, s) \<in> measure length" by simp
qed simp

function trimRight :: "string \<Rightarrow> string" where
  "trimRight s =
     (if trailingSpace s = 0 then s else trimRight (take (length s - trailingSpace s) s))"
  by pat_completeness auto
termination
proof (relation "measure length")
  fix s :: string
  assume "trailingSpace s \<noteq> 0"
  moreover have "trailingSpace s \<le> length s" by (rule trailingSpace_le)
  ultimately show "(take (length s - trailingSpace s) s, s) \<in> measure length" by simp
qed simp

declare trimLeft.simps [simp del] trimRight.simps [simp del]

definition TrimSpace :: "string \<Rightarrow> string" where
  "TrimSpace s = trimRight (trimLeft s)"

section \<open>parser/env.go\<close>















section \<open>The file system and the terminal\<close>

text \<open>
  The state outside the program: the files by path (an association list, in directory
  order), the paths the operating system refuses to open for reading, to create or
  write, and to remove, the history of the file-system calls made, and the lines
  printed. A call that fails changes no file. The program's messages are kept as
  values, not as text.
\<close>

datatype fs_op = OpGlob string | OpReadFile string | OpWriteFile string | OpRemove string

datatype msg =
    MsgEncrypted string bool           \<comment> \<open>"Encrypted: %s -> %s%s", "(format-preserving)" if \<open>True\<close>\<close>
  | MsgCouldNotDeleteOriginal error    \<comment> \<open>"Could not delete original: %s"\<close>
  | MsgDeletedOriginal string          \<comment> \<open>"Deleted original: %s"\<close>
  | MsgDecrypted string bool           \<comment> \<open>"Decrypted: %s%s -> %s", "(format-preserving)" if \<open>True\<close>\<close>
  | MsgSkipped string error            \<comment> \<open>"Skipped %s: %v"\<close>

record world =
  files :: "(string \<times> bytes) list"
  read_denied :: "string set"
  write_denied :: "string set"
  remove_denied :: "string set"
  ops :: "fs_op list"
  stdout :: "msg list"

definition called :: "fs_op \<Rightarrow> world \<Rightarrow> world" where
  "called op w = w\<lparr> ops := ops w @ [op] \<rparr>"

definition print :: "msg \<Rightarrow> world \<Rightarrow> world" where
  "print m w = w\<lparr> stdout := stdout w @ [m] \<rparr>"

definition os_ReadFile :: "string \<Rightarrow> world \<Rightarrow> (error + bytes) \<times> world" where
  "os_ReadFile path w =
     (if path \<in> read_denied w then (Inl (PathError ''open'' path), called (OpReadFile path) w)
      else (case map_of (files w) path of
              None \<Rightarrow> (Inl (PathError ''open'' path), called (OpReadFile path) w)
            | Some data \<Rightarrow> (Inr data, called (OpReadFile path) w)))"

definition os_WriteFile :: "string \<Rightarrow> bytes \<Rightarrow> world \<Rightarrow> error option \<times> world" where
  "os_WriteFile path data w =
     (if path \<in> write_denied w then (Some (PathError ''open'' path), called (OpWriteFile path) w)
      else (None, called (OpWriteFile path) (w\<lparr> files := AList.update path data (files w) \<rparr>)))"

definition os_Remove :: "string \<Rightarrow> world \<Rightarrow> error option \<times> world" where
  "os_Remove path w =
     (if path \<in> remove_denied w \<or> map_of (files w) path = None
      then (Some (PathError ''remove'' path), called (OpRemove path) w)
      else (None, called (OpRemove path) (w\<lparr> files := AList.delete path (files w) \<rparr>)))"

text \<open>
  \<^verbatim>\<open>filepath.Glob\<close>: the error for a malformed pattern, otherwise the existing paths that
  match, in directory order.
\<close>

definition filepath_Glob :: "ext \<Rightarrow> string \<Rightarrow> world \<Rightarrow> (error + string list) \<times> world" where
  "filepath_Glob X pattern w =
     (if filepath_BadPattern X pattern then (Inl ErrBadPattern, called (OpGlob pattern) w)
      else (Inr (filter (filepath_Match X pattern) (map fst (files w))),
            called (OpGlob pattern) w))"

section \<open>The age wrappers of the crypto package\<close>

definition AgeEncrypt :: "ext \<Rightarrow> bytes \<Rightarrow> string list \<Rightarrow> error + bytes" where
  "AgeEncrypt X plaintext recipients =
     (case find (\<lambda>r. \<not> age_ParseX25519Recipient X r) recipients of
        Some r \<Rightarrow> Inl (InvalidRecipient r)
      | None \<Rightarrow>
          (case age_Encrypt X recipients plaintext of
             None \<Rightarrow> Inl FailedToCreateAgeEncryptor
           | Some ciphertext \<Rightarrow> Inr ciphertext))"

definition AgeDecrypt :: "ext \<Rightarrow> bytes \<Rightarrow> string \<Rightarrow> error + bytes" where
  "AgeDecrypt X ciphertext identityData =
     (if \<not> age_ParseX25519Identity X (TrimSpace identityData) then Inl InvalidIdentity
      else (case age_Decrypt X (TrimSpace identityData) ciphertext of
              None \<Rightarrow> Inl AgeFailedToDecrypt
            | Some plaintext \<Rightarrow> Inr plaintext))"

section \<open>keygen/keygen.go: the local identity\<close>

definition configDir :: string where "configDir = ''.config/podx''"
definition ageKeysFile :: string where "ageKeysFile = ''age-keys.txt''"

definition LoadAgeIdentity :: "ext \<Rightarrow> world \<Rightarrow> (error + string) \<times> world" where
  "LoadAgeIdentity X w =
     (case os_UserHomeDir X of
        None \<Rightarrow> (Inl FailedToGetHomeDirectory, w)
      | Some home \<Rightarrow>
          let keyFile = filepath_Join X (filepath_Join X home configDir) ageKeysFile
          in (case os_ReadFile keyFile w of
                (Inl e, w1) \<Rightarrow> (Inl (FailedToReadAgeKeyFile e), w1)
              | (Inr data, w1) \<Rightarrow>
                  let identity =
                        foldl (\<lambda>identity line.
                                 if HasPrefix (TrimSpace line) ''AGE-SECRET-KEY-''
                                 then TrimSpace line else identity)
                          [] (Split (string_of_bytes data))
                  in if identity = [] then (Inl (NoAgeIdentityIn keyFile), w1)
                     else (Inr identity, w1)))"

section \<open>project/project.go\<close>

text \<open>
  The source file carries two revisions of the project functions. The model is of the
  later one, in which \<^verbatim>\<open>EncryptAll\<close> encrypts env files line by line and removes the
  originals, and in which the files are read inside \<^verbatim>\<open>encryptEnvFile\<close>,
  \<^verbatim>\<open>encryptRegularFile\<close>, \<^verbatim>\<open>decryptEnvFile\<close> and \<^verbatim>\<open>decryptRegularFile\<close>. Of the
  earlier revision only \<^verbatim>\<open>EncryptAll\<close> is modelled, under the name \<open>EncryptAll_earlier\<close>,
  at the end of this section: there the file is read in the loop itself.
\<close>

definition ConfigFileName :: string where "ConfigFileName = ''.podx.yaml''"
definition EncryptedExt :: string where "EncryptedExt = ''.podx''"

definition configHeader :: string where
  "configHeader = ''# PODX Project Configuration'' @ [CHR 0x0A]
     @ ''# https://github.com/hades/podx'' @ [CHR 0x0A, CHR 0x0A]"

definition Save :: "ext \<Rightarrow> Project \<Rightarrow> world \<Rightarrow> error option \<times> world" where
  "Save X p w =
     (case yaml_Marshal X (Config p) of
        None \<Rightarrow> (Some FailedToMarshalConfig, w)
      | Some data \<Rightarrow>
          (case os_WriteFile (filepath_Join X (RootDir p) ConfigFileName)
                  (bytes_of_string configHeader @ data) w of
             (Some e, w1) \<Rightarrow> (Some (FailedToWriteConfig e), w1)
           | (None, w1) \<Rightarrow> (None, w1)))"

text \<open>
  \<^verbatim>\<open>AddRecipient\<close> changes the project in memory and saves it: the result is the error
  returned, the project afterwards, and the world afterwards.
\<close>

definition AddRecipient ::
  "ext \<Rightarrow> Project \<Rightarrow> string \<Rightarrow> string \<Rightarrow> world \<Rightarrow> error option \<times> Project \<times> world" where
  "AddRecipient X p name key w =
     (if \<not> HasPrefix key ''age1'' then (Some InvalidAgePublicKey, p, w)
      else if \<exists>r \<in> set (Recipients (Config p)). RecipientKey r = key
      then (Some RecipientAlreadyExists, p, w)
      else
        let p' = p\<lparr> Config := (Config p)\<lparr> Recipients :=
                   Recipients (Config p) @ [\<lparr> RecipientName = name, RecipientKey = key \<rparr>] \<rparr> \<rparr>
        in (case Save X p' w of (e, w1) \<Rightarrow> (e, p', w1)))"

text \<open>
  \<^verbatim>\<open>encryptEnvFile\<close>: the loop over the lines with the slice \<open>result\<close> it appends to, then
  the function. The key of a pair is the text before the first \<open>=\<close>, untrimmed.
\<close>

fun encryptEnvFile_lines :: "ext \<Rightarrow> string list \<Rightarrow> string list \<Rightarrow> string list \<Rightarrow> error + string list"
where
  "encryptEnvFile_lines X recipientKeys result [] = Inr result"
| "encryptEnvFile_lines X recipientKeys result (line # rest) =
     (if TrimSpace line = [] \<or> HasPrefix (TrimSpace line) ''#''
      then encryptEnvFile_lines X recipientKeys (result @ [line]) rest
      else (case Index line CHR ''='' of
              None \<Rightarrow> encryptEnvFile_lines X recipientKeys (result @ [line]) rest
            | Some idx \<Rightarrow>
                if HasPrefix (drop (idx + 1) line) ''ENC[''
                then encryptEnvFile_lines X recipientKeys (result @ [line]) rest
                else (case AgeEncrypt X (bytes_of_string (drop (idx + 1) line)) recipientKeys of
                        Inl e \<Rightarrow> Inl (FailedToEncryptKey (take idx line) e)
                      | Inr ciphertext \<Rightarrow>
                          encryptEnvFile_lines X recipientKeys
                            (result @ [take idx line @ ''='' @ ''ENC[age:''
                                        @ base64_EncodeToString X ciphertext @ '']''])
                            rest)))"

definition encryptEnvFile :: "ext \<Rightarrow> string \<Rightarrow> string list \<Rightarrow> world \<Rightarrow> error option \<times> world" where
  "encryptEnvFile X filePath recipientKeys w =
     (case os_ReadFile filePath w of
        (Inl e, w1) \<Rightarrow> (Some e, w1)
      | (Inr data, w1) \<Rightarrow>
          (case encryptEnvFile_lines X recipientKeys [] (Split (string_of_bytes data)) of
             Inl e \<Rightarrow> (Some e, w1)
           | Inr result \<Rightarrow>
               os_WriteFile (filePath @ EncryptedExt) (bytes_of_string (Join result)) w1))"

definition encryptRegularFile ::
  "ext \<Rightarrow> string \<Rightarrow> string list \<Rightarrow> world \<Rightarrow> error option \<times> world" where
  "encryptRegularFile X filePath recipientKeys w =
     (case os_ReadFile filePath w of
        (Inl e, w1) \<Rightarrow> (Some e, w1)
      | (Inr plaintext, w1) \<Rightarrow>
          (case AgeEncrypt X plaintext recipientKeys of
             Inl e \<Rightarrow> (Some e, w1)
           | Inr ciphertext \<Rightarrow> os_WriteFile (filePath @ EncryptedExt) ciphertext w1))"

text \<open>
  \<^verbatim>\<open>EncryptAll\<close>. \<open>EncryptAll_match\<close> is the body of the inner loop for a match that does
  not carry the extension \<^verbatim>\<open>.podx\<close>: encrypt by kind of file, then remove the original;
  it returns the error with which \<^verbatim>\<open>EncryptAll\<close> returns, if any. A failed removal is
  printed and is no error. \<open>EncryptAll_matches\<close> is the inner loop over the matches of
  one pattern, \<open>EncryptAll_patterns\<close> the outer loop over the patterns; both carry
  \<open>count\<close>. The result is the pair that \<^verbatim>\<open>EncryptAll\<close> returns, and the world.
\<close>

definition isEnvName :: "string \<Rightarrow> bool" where
  "isEnvName baseName \<longleftrightarrow> HasPrefix baseName ''.env'' \<or> HasSuffix baseName ''.env''"

definition EncryptAll_match ::
  "ext \<Rightarrow> Project \<Rightarrow> string list \<Rightarrow> string \<Rightarrow> world \<Rightarrow> error option \<times> world" where
  "EncryptAll_match X p recipientKeys match w =
     (let relPath = filepath_Rel X (RootDir p) match;
          baseName = filepath_Base X match
      in case (if isEnvName baseName then encryptEnvFile X match recipientKeys w
               else encryptRegularFile X match recipientKeys w) of
           (Some e, w1) \<Rightarrow> (Some (FailedToEncrypt relPath e), w1)
         | (None, w1) \<Rightarrow>
             (case os_Remove match (print (MsgEncrypted relPath (isEnvName baseName)) w1) of
                (Some e, w2) \<Rightarrow> (None, print (MsgCouldNotDeleteOriginal e) w2)
              | (None, w2) \<Rightarrow> (None, print (MsgDeletedOriginal relPath) w2)))"

fun EncryptAll_matches ::
  "ext \<Rightarrow> Project \<Rightarrow> string list \<Rightarrow> string list \<Rightarrow> nat \<Rightarrow> world
   \<Rightarrow> (nat \<times> error option) \<times> world" where
  "EncryptAll_matches X p recipientKeys [] count w = ((count, None), w)"
| "EncryptAll_matches X p recipientKeys (match # rest) count w =
     (if HasSuffix match EncryptedExt then EncryptAll_matches X p recipientKeys rest count w
      else (case EncryptAll_match X p recipientKeys match w of
              (Some e, w1) \<Rightarrow> ((count, Some e), w1)
            | (None, w1) \<Rightarrow> EncryptAll_matches X p recipientKeys rest (count + 1) w1))"

fun EncryptAll_patterns ::
  "ext \<Rightarrow> Project \<Rightarrow> string list \<Rightarrow> string list \<Rightarrow> nat \<Rightarrow> world
   \<Rightarrow> (nat \<times> error option) \<times> world" where
  "EncryptAll_patterns X p recipientKeys [] count w = ((count, None), w)"
| "EncryptAll_patterns X p recipientKeys (pattern # rest) count w =
     (case filepath_Glob X (filepath_Join X (RootDir p) pattern) w of
        (Inl e, w1) \<Rightarrow> EncryptAll_patterns X p recipientKeys rest count w1
      | (Inr matches, w1) \<Rightarrow>
          (case EncryptAll_matches X p recipientKeys matches count w1 of
             ((count1, Some e), w2) \<Rightarrow> ((count1, Some e), w2)
           | ((count1, None), w2) \<Rightarrow> EncryptAll_patterns X p recipientKeys rest count1 w2))"

definition EncryptAll :: "ext \<Rightarrow> Project \<Rightarrow> world \<Rightarrow> (nat \<times> error option) \<times> world" where
  "EncryptAll X p w =
     (if length (Recipients (Config p)) = 0 then ((0, Some NoRecipientsConfigured), w)
      else EncryptAll_patterns X p (map RecipientKey (Recipients (Config p)))
             (Secrets (Config p)) 0 w)"

text \<open>\<^verbatim>\<open>decryptEnvFile\<close>, \<^verbatim>\<open>decryptRegularFile\<close> and \<^verbatim>\<open>DecryptAll\<close>, in the same way.\<close>

fun decryptEnvFile_lines :: "ext \<Rightarrow> string \<Rightarrow> string list \<Rightarrow> string list \<Rightarrow> error + string list"
where
  "decryptEnvFile_lines X identity result [] = Inr result"
| "decryptEnvFile_lines X identity result (line # rest) =
     (if TrimSpace line = [] \<or> HasPrefix (TrimSpace line) ''#''
      then decryptEnvFile_lines X identity (result @ [line]) rest
      else (case Index line CHR ''='' of
              None \<Rightarrow> decryptEnvFile_lines X identity (result @ [line]) rest
            | Some idx \<Rightarrow>
                if HasPrefix (drop (idx + 1) line) ''ENC[age:''
                   \<and> HasSuffix (drop (idx + 1) line) '']''
                then (case base64_DecodeString X
                             (TrimSuffix (TrimPrefix (drop (idx + 1) line) ''ENC[age:'') '']'') of
                        None \<Rightarrow> Inl (InvalidBase64ForKey (take idx line))
                      | Some ciphertext \<Rightarrow>
                          (case AgeDecrypt X ciphertext identity of
                             Inl e \<Rightarrow> Inl (FailedToDecryptKey (take idx line) e)
                           | Inr plaintext \<Rightarrow>
                               decryptEnvFile_lines X identity
                                 (result @ [take idx line @ ''='' @ string_of_bytes plaintext])
                                 rest))
                else decryptEnvFile_lines X identity (result @ [line]) rest))"

definition decryptEnvFile ::
  "ext \<Rightarrow> string \<Rightarrow> string \<Rightarrow> string \<Rightarrow> world \<Rightarrow> error option \<times> world" where
  "decryptEnvFile X encPath decPath identity w =
     (case os_ReadFile encPath w of
        (Inl e, w1) \<Rightarrow> (Some e, w1)
      | (Inr data, w1) \<Rightarrow>
          (case decryptEnvFile_lines X identity [] (Split (string_of_bytes data)) of
             Inl e \<Rightarrow> (Some e, w1)
           | Inr result \<Rightarrow> os_WriteFile decPath (bytes_of_string (Join result)) w1))"

definition decryptRegularFile ::
  "ext \<Rightarrow> string \<Rightarrow> string \<Rightarrow> string \<Rightarrow> world \<Rightarrow> error option \<times> world" where
  "decryptRegularFile X encPath decPath identity w =
     (case os_ReadFile encPath w of
        (Inl e, w1) \<Rightarrow> (Some e, w1)
      | (Inr ciphertext, w1) \<Rightarrow>
          (case AgeDecrypt X ciphertext identity of
             Inl e \<Rightarrow> (Some e, w1)
           | Inr plaintext \<Rightarrow> os_WriteFile decPath plaintext w1))"

definition DecryptAll_match ::
  "ext \<Rightarrow> Project \<Rightarrow> string \<Rightarrow> string \<Rightarrow> world \<Rightarrow> error option \<times> world" where
  "DecryptAll_match X p identity match w =
     (let decPath = TrimSuffix match EncryptedExt;
          relPath = filepath_Rel X (RootDir p) decPath;
          baseName = filepath_Base X decPath
      in case (if isEnvName baseName then decryptEnvFile X match decPath identity w
               else decryptRegularFile X match decPath identity w) of
           (Some e, w1) \<Rightarrow> (Some (FailedToDecrypt relPath e), w1)
         | (None, w1) \<Rightarrow> (None, print (MsgDecrypted relPath (isEnvName baseName)) w1))"

fun DecryptAll_matches ::
  "ext \<Rightarrow> Project \<Rightarrow> string \<Rightarrow> string list \<Rightarrow> nat \<Rightarrow> world \<Rightarrow> (nat \<times> error option) \<times> world"
where
  "DecryptAll_matches X p identity [] count w = ((count, None), w)"
| "DecryptAll_matches X p identity (match # rest) count w =
     (case DecryptAll_match X p identity match w of
        (Some e, w1) \<Rightarrow> ((count, Some e), w1)
      | (None, w1) \<Rightarrow> DecryptAll_matches X p identity rest (count + 1) w1)"

fun DecryptAll_patterns ::
  "ext \<Rightarrow> Project \<Rightarrow> string \<Rightarrow> string list \<Rightarrow> nat \<Rightarrow> world \<Rightarrow> (nat \<times> error option) \<times> world"
where
  "DecryptAll_patterns X p identity [] count w = ((count, None), w)"
| "DecryptAll_patterns X p identity (pattern # rest) count w =
     (case filepath_Glob X (filepath_Join X (RootDir p) (pattern @ EncryptedExt)) w of
        (Inl e, w1) \<Rightarrow> DecryptAll_patterns X p identity rest count w1
      | (Inr matches, w1) \<Rightarrow>
          (case DecryptAll_matches X p identity matches count w1 of
             ((count1, Some e), w2) \<Rightarrow> ((count1, Some e), w2)
           | ((count1, None), w2) \<Rightarrow> DecryptAll_patterns X p identity rest count1 w2))"

definition DecryptAll :: "ext \<Rightarrow> Project \<Rightarrow> world \<Rightarrow> (nat \<times> error option) \<times> world" where
  "DecryptAll X p w =
     (case LoadAgeIdentity X w of
        (Inl e, w1) \<Rightarrow> ((0, Some NoAgeIdentityFound), w1)
      | (Inr identity, w1) \<Rightarrow> DecryptAll_patterns X p identity (Secrets (Config p)) 0 w1)"

text \<open>
  The earlier revision of \<^verbatim>\<open>EncryptAll\<close> in the same file. The inner loop reads the match
  itself: a match that cannot be read is printed as skipped and the loop goes on with the
  next one. A failure of \<^verbatim>\<open>AgeEncrypt\<close> or of writing the ciphertext returns the count
  with the error, which names the full path. Every file is encrypted as a whole, and the
  original is not removed.
\<close>

fun EncryptAll_earlier_matches ::
  "ext \<Rightarrow> Project \<Rightarrow> string list \<Rightarrow> string list \<Rightarrow> nat \<Rightarrow> world
   \<Rightarrow> (nat \<times> error option) \<times> world" where
  "EncryptAll_earlier_matches X p recipientKeys [] count w = ((count, None), w)"
| "EncryptAll_earlier_matches X p recipientKeys (match # rest) count w =
     (if HasSuffix match EncryptedExt
      then EncryptAll_earlier_matches X p recipientKeys rest count w
      else (case os_ReadFile match w of
              (Inl e, w1) \<Rightarrow>
                EncryptAll_earlier_matches X p recipientKeys rest count
                  (print (MsgSkipped match e) w1)
            | (Inr plaintext, w1) \<Rightarrow>
                (case AgeEncrypt X plaintext recipientKeys of
                   Inl e \<Rightarrow> ((count, Some (FailedToEncrypt match e)), w1)
                 | Inr ciphertext \<Rightarrow>
                     (case os_WriteFile (match @ EncryptedExt) ciphertext w1 of
                        (Some e, w2) \<Rightarrow>
                          ((count, Some (FailedToWrite (match @ EncryptedExt) e)), w2)
                      | (None, w2) \<Rightarrow>
                          EncryptAll_earlier_matches X p recipientKeys rest (count + 1)
                            (print (MsgEncrypted (filepath_Rel X (RootDir p) match) False)
                               w2)))))"

fun EncryptAll_earlier_patterns ::
  "ext \<Rightarrow> Project \<Rightarrow> string list \<Rightarrow> string list \<Rightarrow> nat \<Rightarrow> world
   \<Rightarrow> (nat \<times> error option) \<times> world" where
  "EncryptAll_earlier_patterns X p recipientKeys [] count w = ((count, None), w)"
| "EncryptAll_earlier_patterns X p recipientKeys (pattern # rest) count w =
     (case filepath_Glob X (filepath_Join X (RootDir p) pattern) w of
        (Inl e, w1) \<Rightarrow> EncryptAll_earlier_patterns X p recipientKeys rest count w1
      | (Inr matches, w1) \<Rightarrow>
          (case EncryptAll_earlier_matches X p recipientKeys matches count w1 of
             ((count1, Some e), w2) \<Rightarrow> ((count1, Some e), w2)
           | ((count1, None), w2) \<Rightarrow>
               EncryptAll_earlier_patterns X p recipientKeys rest count1 w2))"

definition EncryptAll_earlier :: "ext \<Rightarrow> Project \<Rightarrow> world \<Rightarrow> (nat \<times> error option) \<times> world"
where
  "EncryptAll_earlier X p w =
     (if length (Recipients (Config p)) = 0 then ((0, Some NoRecipientsConfigured), w)
      else EncryptAll_earlier_patterns X p (map RecipientKey (Recipients (Config p)))
             (Secrets (Config p)) 0 w)"

section \<open>A toy instance of the primitives\<close>

text \<open>
  Concrete, executable stand-ins for the library primitives, to run the model on
  concrete inputs. The toy AEAD appends a one-byte tag computed from key and nonce; the
  toy KDF pads or cuts password and salt to the requested length; the toy base64 copies
  the bytes and rejects an exclamation mark; the toy age reverses the plaintext and
  appends the byte 7; the toy pattern language has one star.
\<close>

definition toy_tag :: "bytes \<Rightarrow> bytes \<Rightarrow> byte" where
  "toy_tag key nonce = sum_list key + sum_list nonce + 42"

definition toy_aead :: aead where
  "toy_aead = \<lparr> aead_Seal = (\<lambda>key nonce p. p @ [toy_tag key nonce]),
                aead_Open = (\<lambda>key nonce c.
                   if c \<noteq> [] \<and> last c = toy_tag key nonce then Some (butlast c) else None) \<rparr>"

definition toy_ext :: ext where
  "toy_ext = \<lparr> argon2_IDKey = (\<lambda>pw salt t m th n. take n (pw @ salt @ replicate n 0)),
               aes_gcm = toy_aead,
               chacha20poly1305 = toy_aead,
               base64_EncodeToString = string_of_bytes,
               base64_DecodeString = (\<lambda>s. if CHR ''!'' \<in> set s then None
                                            else Some (bytes_of_string s)),
               age_ParseX25519Recipient = (\<lambda>r. HasPrefix r ''age1''),
               age_Encrypt = (\<lambda>rs p. if rs = [] then None else Some (rev p @ [7])),
               age_ParseX25519Identity = (\<lambda>i. HasPrefix i ''AGE-SECRET-KEY-''),
               age_Decrypt = (\<lambda>i c. if c \<noteq> [] \<and> last c = 7 then Some (rev (butlast c))
                                        else None),
               filepath_Join = (\<lambda>a b. a @ ''/'' @ b),
               filepath_Rel = (\<lambda>root path. drop (length root + 1) path),
               filepath_Base = (\<lambda>path. rev (takeWhile (\<lambda>c. c \<noteq> CHR ''/'') (rev path))),
               filepath_Match = (\<lambda>pat path.
                  if CHR ''*'' \<in> set pat
                  then HasPrefix path (takeWhile (\<lambda>c. c \<noteq> CHR ''*'') pat)
                     \<and> HasSuffix path (tl (dropWhile (\<lambda>c. c \<noteq> CHR ''*'') pat))
                     \<and> length pat \<le> length path + 1
                  else pat = path),
               filepath_BadPattern = (\<lambda>pat. CHR ''['' \<in> set pat),
               yaml_Marshal = (\<lambda>c. Some []),
               os_UserHomeDir = Some ''/home/u'' \<rparr>"

section \<open>Properties of the primitives that the program relies on\<close>

text \<open>
  Argon2id returns a key of the length it is asked for, and an AEAD opens what it
  sealed under the same 32-byte key and 12-byte nonce.
\<close>

definition kdf_ok :: "ext \<Rightarrow> bool" where
  "kdf_ok X \<longleftrightarrow>
     (\<forall>pw s. length (argon2_IDKey X pw s argon2Time argon2Memory argon2Threads argon2KeyLen)
              = argon2KeyLen)"

definition aead_ok :: "aead \<Rightarrow> bool" where
  "aead_ok A \<longleftrightarrow>
     (\<forall>key nonce p. length key = 32 \<and> length nonce = 12 \<longrightarrow>
        aead_Open A key nonce (aead_Seal A key nonce p) = Some p)"

section \<open>Predicates used in the statements\<close>


text \<open>
  The ASCII white space, and the strings of ASCII characters: on these \<^verbatim>\<open>TrimSpace\<close>
  takes its fast path.
\<close>

definition asciiSpace :: "char \<Rightarrow> bool" where
  "asciiSpace c \<longleftrightarrow> c \<in> set [CHR 0x09, CHR 0x0A, CHR 0x0B, CHR 0x0C, CHR 0x0D, CHR 0x20]"

definition isASCII :: "string \<Rightarrow> bool" where
  "isASCII s \<longleftrightarrow> (\<forall>c \<in> set s. (of_char c :: nat) < 128)"




text \<open>
  A sample project in \<^verbatim>\<open>/p\<close> with a malformed pattern and the pattern \<^verbatim>\<open>*.key\<close>, a world
  with three key files, and recipients.
\<close>

definition sample_world :: world where
  "sample_world = \<lparr> files = [(''/p/.podx.yaml'', []), (''/p/a.key'', [1, 2, 3]),
                               (''/p/b.key'', [4, 5]), (''/p/c.key'', [6])],
                     read_denied = {}, write_denied = {}, remove_denied = {},
                     ops = [], stdout = [] \<rparr>"

definition sample_project :: "Recipient list \<Rightarrow> Project" where
  "sample_project rs = \<lparr> RootDir = ''/p'',
      Config = \<lparr> Version = 1, Backend = ''age'', Recipients = rs, Secrets = [''[x'', ''*.key''] \<rparr> \<rparr>"

definition alice :: Recipient where
  "alice = \<lparr> RecipientName = ''Alice'', RecipientKey = ''age1alice'' \<rparr>"
definition carol :: Recipient where
  "carol = \<lparr> RecipientName = ''Carol'', RecipientKey = ''ssh-ed25519 AAAA'' \<rparr>"

text \<open>
  The number of printed lines of one kind: the lines "Encrypted: ..." and
  "Decrypted: ..." report the files that a batch has processed.
\<close>

definition isMsgEncrypted :: "msg \<Rightarrow> bool" where
  "isMsgEncrypted m = (case m of MsgEncrypted _ _ \<Rightarrow> True | _ \<Rightarrow> False)"

definition isMsgDecrypted :: "msg \<Rightarrow> bool" where
  "isMsgDecrypted m = (case m of MsgDecrypted _ _ \<Rightarrow> True | _ \<Rightarrow> False)"

definition reported :: "(msg \<Rightarrow> bool) \<Rightarrow> world \<Rightarrow> nat" where
  "reported P w = length (filter P (stdout w))"

text \<open>
  Variants of the sample world: the second key file cannot be read; the first key file
  cannot be removed; the project in its encrypted state, with the identity file of the
  user and a damaged second ciphertext. The worlds with suffix \<open>_a\<close> are reached from
  them when the first key file has been processed.
\<close>

definition world_unreadable :: world where
  "world_unreadable = sample_world\<lparr> read_denied := {''/p/b.key''} \<rparr>"

definition world_unreadable_a :: world where
  "world_unreadable_a =
     \<lparr> files = [(''/p/.podx.yaml'', []), (''/p/b.key'', [4, 5]), (''/p/c.key'', [6]),
                (''/p/a.key.podx'', [3, 2, 1, 7])],
       read_denied = {''/p/b.key''}, write_denied = {}, remove_denied = {},
       ops = [OpGlob ''/p/[x'', OpGlob ''/p/*.key'', OpReadFile ''/p/a.key'',
              OpWriteFile ''/p/a.key.podx'', OpRemove ''/p/a.key''],
       stdout = [MsgEncrypted ''a.key'' False, MsgDeletedOriginal ''a.key''] \<rparr>"

definition world_encrypted :: world where
  "world_encrypted =
     \<lparr> files = [(''/home/u/.config/podx/age-keys.txt'',
                 bytes_of_string (''# created'' @ [CHR 0x0A] @ ''AGE-SECRET-KEY-1TOY'' @ [CHR 0x0A])),
                (''/p/a.key.podx'', [3, 2, 1, 7]), (''/p/b.key.podx'', [5, 4]),
                (''/p/c.key.podx'', [6, 7])],
       read_denied = {}, write_denied = {}, remove_denied = {}, ops = [], stdout = [] \<rparr>"

definition world_encrypted_a :: world where
  "world_encrypted_a =
     \<lparr> files = [(''/home/u/.config/podx/age-keys.txt'',
                 bytes_of_string (''# created'' @ [CHR 0x0A] @ ''AGE-SECRET-KEY-1TOY'' @ [CHR 0x0A])),
                (''/p/a.key.podx'', [3, 2, 1, 7]), (''/p/b.key.podx'', [5, 4]),
                (''/p/c.key.podx'', [6, 7]), (''/p/a.key'', [1, 2, 3])],
       read_denied = {}, write_denied = {}, remove_denied = {},
       ops = [OpReadFile ''/home/u/.config/podx/age-keys.txt'', OpGlob ''/p/[x.podx'',
              OpGlob ''/p/*.key.podx'', OpReadFile ''/p/a.key.podx'', OpWriteFile ''/p/a.key''],
       stdout = [MsgDecrypted ''a.key'' False] \<rparr>"

definition world_undeletable :: world where
  "world_undeletable = sample_world\<lparr> remove_denied := {''/p/a.key''} \<rparr>"

definition world_undeletable_a :: world where
  "world_undeletable_a =
     \<lparr> files = [(''/p/.podx.yaml'', []), (''/p/a.key'', [1, 2, 3]), (''/p/b.key'', [4, 5]),
                (''/p/c.key'', [6]), (''/p/a.key.podx'', [3, 2, 1, 7])],
       read_denied = {}, write_denied = {}, remove_denied = {''/p/a.key''},
       ops = [OpGlob ''/p/[x'', OpGlob ''/p/*.key'', OpReadFile ''/p/a.key'',
              OpWriteFile ''/p/a.key.podx''],
       stdout = [] \<rparr>"

text \<open>
  The paths that exist, and among them the plaintext ones: those without the extension
  \<^verbatim>\<open>.podx\<close>.
\<close>

definition paths :: "world \<Rightarrow> string set" where
  "paths w = fst ` set (files w)"

definition plain :: "world \<Rightarrow> string set" where
  "plain w = {x \<in> paths w. \<not> HasSuffix x EncryptedExt}"

text \<open>
  A second project, whose second pattern also matches a ciphertext, and the world that
  its first batch leaves from the sample world.
\<close>

definition sample_project_star :: Project where
  "sample_project_star = \<lparr> RootDir = ''/p'',
      Config = \<lparr> Version = 1, Backend = ''age'', Recipients = [alice],
                 Secrets = [''*.key'', ''a*''] \<rparr> \<rparr>"

definition world_done :: world where
  "world_done =
     \<lparr> files = [(''/p/.podx.yaml'', []), (''/p/a.key.podx'', [3, 2, 1, 7]),
                (''/p/b.key.podx'', [5, 4, 7]), (''/p/c.key.podx'', [6, 7])],
       read_denied = {}, write_denied = {}, remove_denied = {},
       ops = [OpGlob ''/p/*.key'', OpReadFile ''/p/a.key'', OpWriteFile ''/p/a.key.podx'',
              OpRemove ''/p/a.key'', OpReadFile ''/p/b.key'', OpWriteFile ''/p/b.key.podx'',
              OpRemove ''/p/b.key'', OpReadFile ''/p/c.key'', OpWriteFile ''/p/c.key.podx'',
              OpRemove ''/p/c.key'', OpGlob ''/p/a*''],
       stdout = [MsgEncrypted ''a.key'' False, MsgDeletedOriginal ''a.key'',
                 MsgEncrypted ''b.key'' False, MsgDeletedOriginal ''b.key'',
                 MsgEncrypted ''c.key'' False, MsgDeletedOriginal ''c.key''] \<rparr>"

section \<open>Verified properties: the cipher contract and the symmetric envelope\<close>

lemmas size_defs = AESKeySize_def AESNonceSize_def ChaChaKeySize_def ChaChaNonceSize_def
  SaltSize_def argon2KeyLen_def

lemma toy_aead_ok: "aead_ok toy_aead"
  by (simp add: aead_ok_def toy_aead_def)

lemma toy_kdf_ok: "kdf_ok toy_ext"
  by (auto simp: kdf_ok_def toy_ext_def argon2KeyLen_def)

text \<open>
  C8. For both algorithms, \<^verbatim>\<open>Encrypt\<close> and \<^verbatim>\<open>Decrypt\<close> return the invalid-key-size error
  whenever the key is not exactly 32 bytes long, and then produce no ciphertext and no
  plaintext (and draw no nonce from the random source). This holds for the four
  functions and for every encryptor the registry hands out.
\<close>

theorem key_size_contract:
  assumes "length key \<noteq> 32"
  shows "AESGCMEncrypt X plaintext key tape = (Inl (InvalidKeySize 32 (length key)), tape)
       \<and> AESGCMDecrypt X ciphertext key = Inl (InvalidKeySize 32 (length key))
       \<and> ChaCha20Encrypt X plaintext key tape = (Inl (InvalidKeySize 32 (length key)), tape)
       \<and> ChaCha20Decrypt X ciphertext key = Inl (InvalidKeySize 32 (length key))
       \<and> (\<forall>algo enc. NewEncryptor algo = Inr enc \<longrightarrow>
            Encrypt X enc plaintext key tape = (Inl (InvalidKeySize 32 (length key)), tape)
          \<and> Decrypt X enc ciphertext key = Inl (InvalidKeySize 32 (length key)))"
proof -
  have four:
    "AESGCMEncrypt X plaintext key tape = (Inl (InvalidKeySize 32 (length key)), tape)"
    "AESGCMDecrypt X ciphertext key = Inl (InvalidKeySize 32 (length key))"
    "ChaCha20Encrypt X plaintext key tape = (Inl (InvalidKeySize 32 (length key)), tape)"
    "ChaCha20Decrypt X ciphertext key = Inl (InvalidKeySize 32 (length key))"
    using assms
    by (simp_all add: AESGCMEncrypt_def AESGCMDecrypt_def ChaCha20Encrypt_def
        ChaCha20Decrypt_def size_defs)
  have "Encrypt X enc plaintext key tape = (Inl (InvalidKeySize 32 (length key)), tape)
      \<and> Decrypt X enc ciphertext key = Inl (InvalidKeySize 32 (length key))" for enc
    by (cases enc) (simp_all add: four)
  with four show ?thesis by simp
qed

theorem key_size_contract_witness:
  "length [1, 2, 3 :: byte] \<noteq> 32
   \<and> NewEncryptor ''aes-gcm'' = Inr aesGCMEncryptor
   \<and> NewEncryptor ''chacha20'' = Inr chaCha20Encryptor
   \<and> Encrypt toy_ext aesGCMEncryptor [104, 105] [1, 2, 3] [9, 9] = (Inl (InvalidKeySize 32 3), [9, 9])
   \<and> Decrypt toy_ext aesGCMEncryptor [104, 105] [1, 2, 3] = Inl (InvalidKeySize 32 3)
   \<and> Encrypt toy_ext chaCha20Encryptor [104, 105] [1, 2, 3] [9, 9] = (Inl (InvalidKeySize 32 3), [9, 9])
   \<and> Decrypt toy_ext chaCha20Encryptor [104, 105] [1, 2, 3] = Inl (InvalidKeySize 32 3)"
  using key_size_contract [of "[1, 2, 3]" toy_ext "[104, 105]" "[9, 9]" "[104, 105]"]
  by (simp add: NewEncryptor_def AlgoAESGCM_def AlgoChaCha20_def)

text \<open>
  C5. Every input shorter than the header (16 bytes of salt and the algorithm byte) is
  rejected by the decrypt command with its "file too small or corrupted" error, for
  every password and whatever the primitives are, and Argon2id has not been invoked.
\<close>

theorem corrupt_envelope_rejected_before_kdf:
  assumes "length data < 17"
  shows "handleDecrypt X pass data = (0, Inl FileTooSmallOrCorrupted)"
  using assms by (simp add: handleDecrypt_def SaltSize_def)

theorem corrupt_envelope_rejected_before_kdf_witness:
  "length [1, 2, 3, 4, 5, 6, 7, 8, 9, 10, 11, 12, 13, 14, 15, 16 :: byte] < 17
   \<and> handleDecrypt toy_ext ''pass123'' [1, 2, 3, 4, 5, 6, 7, 8, 9, 10, 11, 12, 13, 14, 15, 16]
       = (0, Inl FileTooSmallOrCorrupted)"
  using corrupt_envelope_rejected_before_kdf
    [of "[1, 2, 3, 4, 5, 6, 7, 8, 9, 10, 11, 12, 13, 14, 15, 16]" toy_ext "''pass123''"]
  by simp

lemma Encrypt_then_Decrypt:
  assumes "aead_ok (aes_gcm X)" "aead_ok (chacha20poly1305 X)"
    and "length key = 32" "12 \<le> length tape"
    and "A = (case enc of aesGCMEncryptor \<Rightarrow> aes_gcm X | chaCha20Encryptor \<Rightarrow> chacha20poly1305 X)"
  shows "Encrypt X enc p key tape
           = (Inr (take 12 tape @ aead_Seal A key (take 12 tape) p), drop 12 tape)"
    and "Decrypt X enc (take 12 tape @ aead_Seal A key (take 12 tape) p) key = Inr p"
  using assms
  by (cases enc; simp add: AESGCMEncrypt_def AESGCMDecrypt_def ChaCha20Encrypt_def
        ChaCha20Decrypt_def size_defs rand_ReadFull_def aead_ok_def)+

text \<open>
  C1. For every plaintext \<open>P\<close> and password \<open>W\<close>, and for both algorithms: when the
  random source delivers the 16 bytes of salt and the 12 bytes of nonce, the encrypt
  command writes salt, algorithm byte (0 for aes-gcm, 1 for chacha20), nonce and sealed
  data, and the decrypt command run on these bytes with the same password returns
  exactly \<open>P\<close> (after one key derivation).
\<close>

theorem envelope_roundtrip:
  assumes kdf: "kdf_ok X"
    and gcm: "aead_ok (aes_gcm X)" and cha: "aead_ok (chacha20poly1305 X)"
    and algo: "algo = ''aes-gcm'' \<or> algo = ''chacha20''"
    and tape: "28 \<le> length tape"
  shows "\<exists>sealed.
           handleEncrypt X algo W P tape
             = Inr (take 16 tape @ [if algo = ''chacha20'' then 1 else 0]
                    @ take 12 (drop 16 tape) @ sealed)
         \<and> handleDecrypt X W
             (take 16 tape @ [if algo = ''chacha20'' then 1 else 0]
              @ take 12 (drop 16 tape) @ sealed) = (1, Inr P)"
proof -
  define salt where "salt = take 16 tape"
  define tape1 where "tape1 = drop 16 tape"
  define key where
    "key = argon2_IDKey X (bytes_of_string W) salt argon2Time argon2Memory argon2Threads
             argon2KeyLen"
  have lsalt: "length salt = 16" using tape by (simp add: salt_def)
  have lkey: "length key = 32" using kdf by (simp add: key_def kdf_ok_def argon2KeyLen_def)
  have lt1: "12 \<le> length tape1" using tape by (simp add: tape1_def)
  have dk: "DeriveKey X (bytes_of_string W) None tape = (Inr (key, salt), tape1)"
    using tape
    by (simp add: DeriveKey_def rand_ReadFull_def SaltSize_def key_def salt_def tape1_def)
  have dks: "DeriveKeyWithSalt X (bytes_of_string W) salt = (Inr key, 1)"
    using lsalt by (simp add: DeriveKeyWithSalt_def SaltSize_def key_def)
  obtain enc where enc: "NewEncryptor algo = Inr enc"
    and enc': "NewEncryptor (if (if algo = ''chacha20'' then 1 else 0 :: byte) = 1
                             then AlgoChaCha20 else AlgoAESGCM) = Inr enc"
    using algo by (auto simp: NewEncryptor_def AlgoAESGCM_def AlgoChaCha20_def)
  define A where
    "A = (case enc of aesGCMEncryptor \<Rightarrow> aes_gcm X | chaCha20Encryptor \<Rightarrow> chacha20poly1305 X)"
  define sealed where "sealed = aead_Seal A key (take 12 tape1) P"
  have e: "Encrypt X enc P key tape1 = (Inr (take 12 tape1 @ sealed), drop 12 tape1)"
    using Encrypt_then_Decrypt(1)[OF gcm cha lkey lt1 A_def] by (simp add: sealed_def)
  have d: "Decrypt X enc (take 12 tape1 @ sealed) key = Inr P"
    using Encrypt_then_Decrypt(2)[OF gcm cha lkey lt1 A_def] by (simp add: sealed_def)
  have he: "handleEncrypt X algo W P tape
              = Inr (salt @ [if algo = ''chacha20'' then 1 else 0] @ take 12 tape1 @ sealed)"
    by (simp add: handleEncrypt_def dk enc e)
  have hd: "handleDecrypt X W
              (salt @ [if algo = ''chacha20'' then 1 else 0] @ take 12 tape1 @ sealed)
              = (1, Inr P)"
    using lsalt enc' by (simp add: handleDecrypt_def SaltSize_def nth_append dks d)
  show ?thesis using he hd unfolding salt_def tape1_def by blast
qed

theorem envelope_roundtrip_witness:
  "kdf_ok toy_ext \<and> aead_ok (aes_gcm toy_ext) \<and> aead_ok (chacha20poly1305 toy_ext)
   \<and> (28::nat) \<le> length [1, 2, 3, 4, 5, 6, 7, 8, 9, 10, 11, 12, 13, 14, 15, 16, 17, 18, 19,
                           20, 21, 22, 23, 24, 25, 26, 27, 28 :: byte]
   \<and> (\<exists>sealed.
         handleEncrypt toy_ext ''chacha20'' ''pass123'' [104, 101, 108, 108, 111, 10]
           [1, 2, 3, 4, 5, 6, 7, 8, 9, 10, 11, 12, 13, 14, 15, 16, 17, 18, 19,
            20, 21, 22, 23, 24, 25, 26, 27, 28]
           = Inr ([1, 2, 3, 4, 5, 6, 7, 8, 9, 10, 11, 12, 13, 14, 15, 16] @ [1]
                  @ [17, 18, 19, 20, 21, 22, 23, 24, 25, 26, 27, 28] @ sealed)
       \<and> handleDecrypt toy_ext ''pass123''
           ([1, 2, 3, 4, 5, 6, 7, 8, 9, 10, 11, 12, 13, 14, 15, 16] @ [1]
            @ [17, 18, 19, 20, 21, 22, 23, 24, 25, 26, 27, 28] @ sealed)
           = (1, Inr [104, 101, 108, 108, 111, 10]))"
proof -
  have a: "aead_ok (aes_gcm toy_ext)" and c: "aead_ok (chacha20poly1305 toy_ext)"
    using toy_aead_ok by (simp_all add: toy_ext_def)
  have t: "(28::nat) \<le> length [1, 2, 3, 4, 5, 6, 7, 8, 9, 10, 11, 12, 13, 14, 15, 16, 17, 18,
                                19, 20, 21, 22, 23, 24, 25, 26, 27, 28 :: byte]"
    by simp
  have "''chacha20'' = ''aes-gcm'' \<or> ''chacha20'' = ''chacha20''" by simp
  from envelope_roundtrip [OF toy_kdf_ok a c this t, of "''pass123''" "[104, 101, 108, 108, 111, 10]"]
  show ?thesis using toy_kdf_ok a c by simp
qed

section \<open>Verified properties: the env parser\<close>

subsection \<open>TrimSpace on ASCII strings\<close>

lemma HasPrefix_single: "HasPrefix (c # cs) [x] \<longleftrightarrow> c = x"
  by (simp add: HasPrefix_def)

lemma HasPrefix_nonascii:
  "(of_char c :: nat) < 128 \<Longrightarrow> 128 \<le> (of_char x :: nat) \<Longrightarrow> \<not> HasPrefix (c # cs) (x # w)"
  by (auto simp: HasPrefix_def)

lemma leadingSpace_space: "asciiSpace c \<Longrightarrow> leadingSpace (c # cs) = 1"
  unfolding asciiSpace_def
  by (auto simp: leadingSpace_def unicodeSpaces_def HasPrefix_single)

lemma leadingSpace_nonspace:
  "\<not> asciiSpace c \<Longrightarrow> (of_char c :: nat) < 128 \<Longrightarrow> leadingSpace (c # cs) = 0"
  unfolding asciiSpace_def
  by (simp add: leadingSpace_def unicodeSpaces_def HasPrefix_single HasPrefix_nonascii)

lemma leadingSpace_Nil: "leadingSpace [] = 0"
  by (simp add: leadingSpace_def unicodeSpaces_def HasPrefix_def)

lemma trimLeft_ascii: "isASCII s \<Longrightarrow> trimLeft s = dropWhile asciiSpace s"
proof (induction s)
  case Nil
  show ?case by (subst trimLeft.simps) (simp add: leadingSpace_Nil)
next
  case (Cons c cs)
  then have c: "(of_char c :: nat) < 128" and cs: "isASCII cs" by (simp_all add: isASCII_def)
  show ?case
  proof (cases "asciiSpace c")
    case True
    then show ?thesis
      by (subst trimLeft.simps) (simp add: leadingSpace_space Cons.IH[OF cs])
  next
    case False
    then show ?thesis
      by (subst trimLeft.simps) (simp add: leadingSpace_nonspace[OF False c])
  qed
qed

lemma HasSuffix_single: "HasSuffix (cs @ [c]) [x] \<longleftrightarrow> c = x"
  by (auto simp: HasSuffix_def)

lemma HasSuffix_last: "HasSuffix s w \<Longrightarrow> w \<noteq> [] \<Longrightarrow> last s = last w"
proof -
  assume h: "HasSuffix s w" and w: "w \<noteq> []"
  from h have d: "drop (length s - length w) s = w" by (simp add: HasSuffix_def)
  with w have "drop (length s - length w) s \<noteq> []" by simp
  then have "last (drop (length s - length w) s) = last s" by simp
  with d show ?thesis by simp
qed

lemma HasSuffix_nonascii:
  "(of_char c :: nat) < 128 \<Longrightarrow> 128 \<le> (of_char (last (x # w)) :: nat)
   \<Longrightarrow> \<not> HasSuffix (cs @ [c]) (x # w)"
  using HasSuffix_last[of "cs @ [c]" "x # w"] by auto

lemma trailingSpace_space: "asciiSpace c \<Longrightarrow> trailingSpace (cs @ [c]) = 1"
  unfolding asciiSpace_def
  by (auto simp: trailingSpace_def unicodeSpaces_def HasSuffix_single)

lemma trailingSpace_nonspace:
  "\<not> asciiSpace c \<Longrightarrow> (of_char c :: nat) < 128 \<Longrightarrow> trailingSpace (cs @ [c]) = 0"
  unfolding asciiSpace_def
  by (simp add: trailingSpace_def unicodeSpaces_def HasSuffix_single HasSuffix_nonascii)

lemma trailingSpace_Nil: "trailingSpace [] = 0"
  by (simp add: trailingSpace_def unicodeSpaces_def HasSuffix_def)

lemma trimRight_ascii: "isASCII s \<Longrightarrow> trimRight s = rev (dropWhile asciiSpace (rev s))"
proof (induction s rule: rev_induct)
  case Nil
  show ?case by (subst trimRight.simps) (simp add: trailingSpace_Nil)
next
  case (snoc c cs)
  then have c: "(of_char c :: nat) < 128" and cs: "isASCII cs" by (simp_all add: isASCII_def)
  show ?case
  proof (cases "asciiSpace c")
    case True
    then show ?thesis
      by (subst trimRight.simps) (simp add: trailingSpace_space snoc.IH[OF cs])
  next
    case False
    then show ?thesis
      by (subst trimRight.simps) (simp add: trailingSpace_nonspace[OF False c])
  qed
qed

lemma TrimSpace_ascii:
  assumes "isASCII s"
  shows "TrimSpace s = rev (dropWhile asciiSpace (rev (dropWhile asciiSpace s)))"
proof -
  have "isASCII (dropWhile asciiSpace s)"
    using assms by (auto simp: isASCII_def dest: set_dropWhileD)
  then show ?thesis by (simp add: TrimSpace_def trimLeft_ascii[OF assms] trimRight_ascii)
qed


subsection \<open>Parsing and writing back\<close>










subsection \<open>Decrypting the values in place\<close>










section \<open>Verified properties: the project\<close>

subsection \<open>Recipients\<close>

text \<open>
  C7, as amended. In a project where no two recipients share a key, \<^verbatim>\<open>AddRecipient\<close>
  keeps it so, whatever it returns. Adding a key that an existing recipient has returns
  an error and leaves project and files unchanged: the duplicate error when the key
  starts with \<^verbatim>\<open>age1\<close>, and the invalid-key error otherwise, since the format of the key is
  tested first. An add that returns no error has appended the new recipient and changed
  nothing else of the project; the list of recipients is never changed otherwise.
\<close>

theorem AddRecipient_keeps_keys_unique:
  assumes "distinct (map RecipientKey (Recipients (Config p)))"
    and "AddRecipient X p name key w = (err, p', w')"
  shows "distinct (map RecipientKey (Recipients (Config p')))
       \<and> (key \<in> set (map RecipientKey (Recipients (Config p))) \<longrightarrow>
            err = Some (if HasPrefix key ''age1'' then RecipientAlreadyExists
                        else InvalidAgePublicKey)
          \<and> p' = p \<and> w' = w)
       \<and> (err = None \<longrightarrow>
            p' = p\<lparr> Config := (Config p)\<lparr> Recipients :=
                   Recipients (Config p) @ [\<lparr> RecipientName = name, RecipientKey = key \<rparr>] \<rparr> \<rparr>)
       \<and> (Recipients (Config p') = Recipients (Config p)
          \<or> Recipients (Config p')
               = Recipients (Config p) @ [\<lparr> RecipientName = name, RecipientKey = key \<rparr>])"
proof (cases "HasPrefix key ''age1''")
  case False
  with assms show ?thesis by (auto simp: AddRecipient_def)
next
  case True
  show ?thesis
  proof (cases "\<exists>r \<in> set (Recipients (Config p)). RecipientKey r = key")
    case dup: True
    with True assms(2) have "err = Some RecipientAlreadyExists" "p' = p" "w' = w"
      by (simp_all add: AddRecipient_def)
    with True assms(1) show ?thesis by simp
  next
    case False
    then have notin: "key \<notin> set (map RecipientKey (Recipients (Config p)))" by auto
    from True False assms(2)
    have p': "p' = p\<lparr> Config := (Config p)\<lparr> Recipients :=
                   Recipients (Config p) @ [\<lparr> RecipientName = name, RecipientKey = key \<rparr>] \<rparr> \<rparr>"
      by (auto simp: AddRecipient_def Let_def split: prod.splits)
    with assms(1) notin show ?thesis by simp
  qed
qed

lemma AddRecipient_dup_run:
  "AddRecipient toy_ext (sample_project [alice]) ''Al'' ''age1alice'' sample_world
     = (Some RecipientAlreadyExists, sample_project [alice], sample_world)"
  by (simp add: AddRecipient_def sample_project_def alice_def HasPrefix_def)

theorem AddRecipient_keeps_keys_unique_witness:
  "distinct (map RecipientKey (Recipients (Config (sample_project [alice]))))
   \<and> AddRecipient toy_ext (sample_project [alice]) ''Al'' ''age1alice'' sample_world
       = (Some RecipientAlreadyExists, sample_project [alice], sample_world)
   \<and> ''age1alice'' \<in> set (map RecipientKey (Recipients (Config (sample_project [alice]))))
   \<and> HasPrefix ''age1alice'' ''age1''
   \<and> Some RecipientAlreadyExists
       = Some (if HasPrefix ''age1alice'' ''age1'' then RecipientAlreadyExists
               else InvalidAgePublicKey)"
proof -
  have d: "distinct (map RecipientKey (Recipients (Config (sample_project [alice]))))"
    by (simp add: sample_project_def)
  have k: "''age1alice'' \<in> set (map RecipientKey (Recipients (Config (sample_project [alice]))))"
    by (simp add: sample_project_def alice_def)
  have h: "HasPrefix ''age1alice'' ''age1''" by (simp add: HasPrefix_def)
  from AddRecipient_keeps_keys_unique [OF d AddRecipient_dup_run] k
  have "Some RecipientAlreadyExists
          = Some (if HasPrefix ''age1alice'' ''age1'' then RecipientAlreadyExists
                  else InvalidAgePublicKey)"
    by blast
  with d k h AddRecipient_dup_run show ?thesis by blast
qed

text \<open>
  C7 as stated fails for a project whose configuration file lists a recipient with a key
  that does not start with \<^verbatim>\<open>age1\<close>: adding that key again returns the invalid-key error,
  not the duplicate error.
\<close>

theorem AddRecipient_counterexample:
  "distinct (map RecipientKey (Recipients (Config (sample_project [alice, carol]))))
   \<and> ''ssh-ed25519 AAAA'' \<in> set (map RecipientKey (Recipients (Config (sample_project [alice, carol]))))
   \<and> AddRecipient toy_ext (sample_project [alice, carol]) ''Carol again'' ''ssh-ed25519 AAAA'' sample_world
       = (Some InvalidAgePublicKey, sample_project [alice, carol], sample_world)
   \<and> InvalidAgePublicKey \<noteq> RecipientAlreadyExists"
  by (simp add: AddRecipient_def sample_project_def alice_def carol_def HasPrefix_def)

subsection \<open>Encrypting all secrets\<close>

text \<open>
  C4. \<^verbatim>\<open>EncryptAll\<close> on a project without recipients returns the count 0 and the
  no-recipients error, and the world is as it was: no file has changed, and no file has
  been globbed, read, written or removed.
\<close>

theorem no_recipients_fail_fast:
  assumes "Recipients (Config p) = []"
  shows "EncryptAll X p w = ((0, Some NoRecipientsConfigured), w)"
  using assms by (simp add: EncryptAll_def)

theorem no_recipients_fail_fast_witness:
  "Recipients (Config (sample_project [])) = []
   \<and> EncryptAll toy_ext (sample_project []) sample_world
       = ((0, Some NoRecipientsConfigured), sample_world)"
proof -
  have h: "Recipients (Config (sample_project [])) = []" by (simp add: sample_project_def)
  from no_recipients_fail_fast [OF h] show ?thesis using h by blast
qed

subsection \<open>What a batch prints and counts\<close>

lemma stdout_simps [simp]:
  "stdout (called op w) = stdout w"
  "stdout (print m w) = stdout w @ [m]"
  by (simp_all add: called_def print_def)

lemma os_ReadFile_stdout: "os_ReadFile path w = (r, w') \<Longrightarrow> stdout w' = stdout w"
  by (auto simp: os_ReadFile_def split: if_splits option.splits)

lemma os_WriteFile_stdout: "os_WriteFile path d w = (r, w') \<Longrightarrow> stdout w' = stdout w"
  by (auto simp: os_WriteFile_def split: if_splits)

lemma os_Remove_stdout: "os_Remove path w = (r, w') \<Longrightarrow> stdout w' = stdout w"
  by (auto simp: os_Remove_def split: if_splits)

lemma filepath_Glob_stdout: "filepath_Glob X pat w = (r, w') \<Longrightarrow> stdout w' = stdout w"
  by (auto simp: filepath_Glob_def split: if_splits)

lemma encryptEnvFile_stdout:
  "encryptEnvFile X path keys w = (r, w') \<Longrightarrow> stdout w' = stdout w"
  by (auto simp: encryptEnvFile_def split: prod.splits sum.splits
      dest!: os_ReadFile_stdout os_WriteFile_stdout)

lemma encryptRegularFile_stdout:
  "encryptRegularFile X path keys w = (r, w') \<Longrightarrow> stdout w' = stdout w"
  by (auto simp: encryptRegularFile_def split: prod.splits sum.splits
      dest!: os_ReadFile_stdout os_WriteFile_stdout)

lemma EncryptAll_match_stdout:
  assumes "EncryptAll_match X p keys m w = (r, w')"
  shows "case r of
           Some e \<Rightarrow> stdout w' = stdout w
         | None \<Rightarrow> (\<exists>d. stdout w' = stdout w
                          @ [MsgEncrypted (filepath_Rel X (RootDir p) m) (isEnvName (filepath_Base X m)), d]
                      \<and> (d = MsgDeletedOriginal (filepath_Rel X (RootDir p) m)
                         \<or> (\<exists>e. d = MsgCouldNotDeleteOriginal e)))"
proof -
  obtain r1 w1 where enc:
    "(if isEnvName (filepath_Base X m) then encryptEnvFile X m keys w
      else encryptRegularFile X m keys w) = (r1, w1)"
    by (cases "(if isEnvName (filepath_Base X m) then encryptEnvFile X m keys w
      else encryptRegularFile X m keys w)")
  then have w1: "stdout w1 = stdout w"
    by (auto split: if_splits dest!: encryptEnvFile_stdout encryptRegularFile_stdout)
  show ?thesis
  proof (cases r1)
    case (Some e)
    with assms enc w1 show ?thesis by (auto simp: EncryptAll_match_def Let_def)
  next
    case None
    obtain r2 w2 where rm:
      "os_Remove m (print (MsgEncrypted (filepath_Rel X (RootDir p) m) (isEnvName (filepath_Base X m))) w1) = (r2, w2)"
      by (cases "os_Remove m (print (MsgEncrypted (filepath_Rel X (RootDir p) m) (isEnvName (filepath_Base X m))) w1)")
    from os_Remove_stdout[OF rm] w1
    have "stdout w2 = stdout w @ [MsgEncrypted (filepath_Rel X (RootDir p) m) (isEnvName (filepath_Base X m))]"
      by simp
    with None assms enc rm show ?thesis
      by (auto simp: EncryptAll_match_def Let_def split: option.splits)
  qed
qed

lemma EncryptAll_match_reported:
  assumes "EncryptAll_match X p keys m w = (r, w')"
  shows "reported isMsgEncrypted w' = reported isMsgEncrypted w + (if r = None then 1 else 0)"
  using EncryptAll_match_stdout[OF assms]
  by (cases r) (auto simp: reported_def isMsgEncrypted_def)

lemma filepath_Glob_reported: "filepath_Glob X pat w = (r, w') \<Longrightarrow> reported P w' = reported P w"
  by (simp add: reported_def filepath_Glob_stdout)

lemma EncryptAll_matches_count:
  assumes "EncryptAll_matches X p keys ms c w = ((c', r), w')"
  shows "c' + reported isMsgEncrypted w = c + reported isMsgEncrypted w'"
  using assms
proof (induction ms arbitrary: c w)
  case Nil
  then show ?case by simp
next
  case (Cons m ms)
  show ?case
  proof (cases "HasSuffix m EncryptedExt")
    case True
    with Cons show ?thesis by simp
  next
    case False
    obtain r1 w1 where st: "EncryptAll_match X p keys m w = (r1, w1)"
      by (cases "EncryptAll_match X p keys m w")
    note rep = EncryptAll_match_reported[OF st]
    show ?thesis
    proof (cases r1)
      case (Some e)
      with False st Cons.prems rep show ?thesis by auto
    next
      case None
      with False st Cons.prems
      have "EncryptAll_matches X p keys ms (c + 1) w1 = ((c', r), w')" by simp
      from Cons.IH[OF this] rep None show ?thesis by simp
    qed
  qed
qed

lemma EncryptAll_patterns_count:
  assumes "EncryptAll_patterns X p keys ps c w = ((c', r), w')"
  shows "c' + reported isMsgEncrypted w = c + reported isMsgEncrypted w'"
  using assms
proof (induction ps arbitrary: c w)
  case Nil
  then show ?case by simp
next
  case (Cons pat ps)
  obtain g w1 where gl: "filepath_Glob X (filepath_Join X (RootDir p) pat) w = (g, w1)"
    by (cases "filepath_Glob X (filepath_Join X (RootDir p) pat) w")
  note rg = filepath_Glob_reported[OF gl, of isMsgEncrypted]
  show ?case
  proof (cases g)
    case (Inl e)
    with gl Cons.prems have "EncryptAll_patterns X p keys ps c w1 = ((c', r), w')" by simp
    from Cons.IH[OF this] rg show ?thesis by simp
  next
    case (Inr ms)
    obtain c1 r1 w2 where inner: "EncryptAll_matches X p keys ms c w1 = ((c1, r1), w2)"
      by (cases "EncryptAll_matches X p keys ms c w1") auto
    note ri = EncryptAll_matches_count[OF inner]
    show ?thesis
    proof (cases r1)
      case (Some e)
      with Inr gl inner Cons.prems ri rg show ?thesis by auto
    next
      case None
      with Inr gl inner Cons.prems
      have "EncryptAll_patterns X p keys ps c1 w2 = ((c', r), w')" by simp
      from Cons.IH[OF this] ri rg show ?thesis by simp
    qed
  qed
qed

lemma EncryptAll_matches_abort:
  assumes "EncryptAll_matches X p keys ms1 c w = ((c1, None), w1)"
    and "\<not> HasSuffix m EncryptedExt"
    and "EncryptAll_match X p keys m w1 = (Some e, w2)"
  shows "EncryptAll_matches X p keys (ms1 @ m # ms2) c w = ((c1, Some e), w2)"
  using assms
proof (induction ms1 arbitrary: c w)
  case Nil
  then show ?case by simp
next
  case (Cons a ms1)
  show ?case
  proof (cases "HasSuffix a EncryptedExt")
    case True
    with Cons show ?thesis by simp
  next
    case False
    obtain r1 wa where st: "EncryptAll_match X p keys a w = (r1, wa)"
      by (cases "EncryptAll_match X p keys a w")
    show ?thesis
    proof (cases r1)
      case (Some e')
      with False st Cons.prems show ?thesis by auto
    next
      case None
      with False st Cons.prems
      have "EncryptAll_matches X p keys ms1 (c + 1) wa = ((c1, None), w1)" by simp
      from Cons.IH[OF this Cons.prems(2,3)] None False st show ?thesis by simp
    qed
  qed
qed

lemma EncryptAll_patterns_abort:
  assumes "EncryptAll_patterns X p keys ps1 c w = ((c1, None), w1)"
    and "filepath_Glob X (filepath_Join X (RootDir p) pat) w1 = (Inr ms, w2)"
    and "EncryptAll_matches X p keys ms c1 w2 = ((c2, Some e), w3)"
  shows "EncryptAll_patterns X p keys (ps1 @ pat # ps2) c w = ((c2, Some e), w3)"
  using assms
proof (induction ps1 arbitrary: c w)
  case Nil
  then show ?case by simp
next
  case (Cons a ps1)
  obtain g wa where gl: "filepath_Glob X (filepath_Join X (RootDir p) a) w = (g, wa)"
    by (cases "filepath_Glob X (filepath_Join X (RootDir p) a) w")
  show ?case
  proof (cases g)
    case (Inl e')
    with gl Cons.prems have "EncryptAll_patterns X p keys ps1 c wa = ((c1, None), w1)" by simp
    from Cons.IH[OF this Cons.prems(2,3)] Inl gl show ?thesis by simp
  next
    case (Inr msa)
    obtain ca ra wb where inner: "EncryptAll_matches X p keys msa c wa = ((ca, ra), wb)"
      by (cases "EncryptAll_matches X p keys msa c wa") auto
    show ?thesis
    proof (cases ra)
      case (Some e')
      with Inr gl inner Cons.prems show ?thesis by auto
    next
      case None
      with Inr gl inner Cons.prems
      have "EncryptAll_patterns X p keys ps1 ca wb = ((c1, None), w1)" by simp
      from Cons.IH[OF this Cons.prems(2,3)] None Inr gl inner show ?thesis by simp
    qed
  qed
qed

lemma decryptEnvFile_stdout:
  "decryptEnvFile X encPath decPath identity w = (r, w') \<Longrightarrow> stdout w' = stdout w"
  by (auto simp: decryptEnvFile_def split: prod.splits sum.splits
      dest!: os_ReadFile_stdout os_WriteFile_stdout)

lemma decryptRegularFile_stdout:
  "decryptRegularFile X encPath decPath identity w = (r, w') \<Longrightarrow> stdout w' = stdout w"
  by (auto simp: decryptRegularFile_def split: prod.splits sum.splits
      dest!: os_ReadFile_stdout os_WriteFile_stdout)

lemma DecryptAll_match_reported:
  assumes "DecryptAll_match X p identity m w = (r, w')"
  shows "reported isMsgDecrypted w' = reported isMsgDecrypted w + (if r = None then 1 else 0)"
proof -
  let ?dec = "TrimSuffix m EncryptedExt"
  obtain r1 w1 where dec:
    "(if isEnvName (filepath_Base X ?dec) then decryptEnvFile X m ?dec identity w
      else decryptRegularFile X m ?dec identity w) = (r1, w1)"
    by (cases "(if isEnvName (filepath_Base X ?dec) then decryptEnvFile X m ?dec identity w
      else decryptRegularFile X m ?dec identity w)")
  then have w1: "stdout w1 = stdout w"
    by (auto split: if_splits dest!: decryptEnvFile_stdout decryptRegularFile_stdout)
  show ?thesis
  proof (cases r1)
    case (Some e)
    with assms dec w1 show ?thesis by (auto simp: DecryptAll_match_def Let_def reported_def)
  next
    case None
    with assms dec w1 show ?thesis
      by (auto simp: DecryptAll_match_def Let_def reported_def isMsgDecrypted_def)
  qed
qed

lemma DecryptAll_matches_count:
  assumes "DecryptAll_matches X p identity ms c w = ((c', r), w')"
  shows "c' + reported isMsgDecrypted w = c + reported isMsgDecrypted w'"
  using assms
proof (induction ms arbitrary: c w)
  case Nil
  then show ?case by simp
next
  case (Cons m ms)
  obtain r1 w1 where st: "DecryptAll_match X p identity m w = (r1, w1)"
    by (cases "DecryptAll_match X p identity m w")
  note rep = DecryptAll_match_reported[OF st]
  show ?case
  proof (cases r1)
    case (Some e)
    with st Cons.prems rep show ?thesis by auto
  next
    case None
    with st Cons.prems
    have "DecryptAll_matches X p identity ms (c + 1) w1 = ((c', r), w')" by simp
    from Cons.IH[OF this] rep None show ?thesis by simp
  qed
qed

lemma DecryptAll_patterns_count:
  assumes "DecryptAll_patterns X p identity ps c w = ((c', r), w')"
  shows "c' + reported isMsgDecrypted w = c + reported isMsgDecrypted w'"
  using assms
proof (induction ps arbitrary: c w)
  case Nil
  then show ?case by simp
next
  case (Cons pat ps)
  obtain g w1 where
    gl: "filepath_Glob X (filepath_Join X (RootDir p) (pat @ EncryptedExt)) w = (g, w1)"
    by (cases "filepath_Glob X (filepath_Join X (RootDir p) (pat @ EncryptedExt)) w")
  note rg = filepath_Glob_reported[OF gl, of isMsgDecrypted]
  show ?case
  proof (cases g)
    case (Inl e)
    with gl Cons.prems have "DecryptAll_patterns X p identity ps c w1 = ((c', r), w')" by simp
    from Cons.IH[OF this] rg show ?thesis by simp
  next
    case (Inr ms)
    obtain c1 r1 w2 where inner: "DecryptAll_matches X p identity ms c w1 = ((c1, r1), w2)"
      by (cases "DecryptAll_matches X p identity ms c w1") auto
    note ri = DecryptAll_matches_count[OF inner]
    show ?thesis
    proof (cases r1)
      case (Some e)
      with Inr gl inner Cons.prems ri rg show ?thesis by auto
    next
      case None
      with Inr gl inner Cons.prems
      have "DecryptAll_patterns X p identity ps c1 w2 = ((c', r), w')" by simp
      from Cons.IH[OF this] ri rg show ?thesis by simp
    qed
  qed
qed

lemma DecryptAll_matches_abort:
  assumes "DecryptAll_matches X p identity ms1 c w = ((c1, None), w1)"
    and "DecryptAll_match X p identity m w1 = (Some e, w2)"
  shows "DecryptAll_matches X p identity (ms1 @ m # ms2) c w = ((c1, Some e), w2)"
  using assms
proof (induction ms1 arbitrary: c w)
  case Nil
  then show ?case by simp
next
  case (Cons a ms1)
  obtain r1 wa where st: "DecryptAll_match X p identity a w = (r1, wa)"
    by (cases "DecryptAll_match X p identity a w")
  show ?case
  proof (cases r1)
    case (Some e')
    with st Cons.prems show ?thesis by auto
  next
    case None
    with st Cons.prems
    have "DecryptAll_matches X p identity ms1 (c + 1) wa = ((c1, None), w1)" by simp
    from Cons.IH[OF this Cons.prems(2)] None st show ?thesis by simp
  qed
qed

lemma DecryptAll_patterns_abort:
  assumes "DecryptAll_patterns X p identity ps1 c w = ((c1, None), w1)"
    and "filepath_Glob X (filepath_Join X (RootDir p) (pat @ EncryptedExt)) w1 = (Inr ms, w2)"
    and "DecryptAll_matches X p identity ms c1 w2 = ((c2, Some e), w3)"
  shows "DecryptAll_patterns X p identity (ps1 @ pat # ps2) c w = ((c2, Some e), w3)"
  using assms
proof (induction ps1 arbitrary: c w)
  case Nil
  then show ?case by simp
next
  case (Cons a ps1)
  obtain g wa where
    gl: "filepath_Glob X (filepath_Join X (RootDir p) (a @ EncryptedExt)) w = (g, wa)"
    by (cases "filepath_Glob X (filepath_Join X (RootDir p) (a @ EncryptedExt)) w")
  show ?case
  proof (cases g)
    case (Inl e')
    with gl Cons.prems have "DecryptAll_patterns X p identity ps1 c wa = ((c1, None), w1)" by simp
    from Cons.IH[OF this Cons.prems(2,3)] Inl gl show ?thesis by simp
  next
    case (Inr msa)
    obtain ca ra wb where inner: "DecryptAll_matches X p identity msa c wa = ((ca, ra), wb)"
      by (cases "DecryptAll_matches X p identity msa c wa") auto
    show ?thesis
    proof (cases ra)
      case (Some e')
      with Inr gl inner Cons.prems show ?thesis by auto
    next
      case None
      with Inr gl inner Cons.prems
      have "DecryptAll_patterns X p identity ps1 ca wb = ((c1, None), w1)" by simp
      from Cons.IH[OF this Cons.prems(2,3)] None Inr gl inner show ?thesis by simp
    qed
  qed
qed

lemma EncryptAll_match_read_error:
  assumes "os_ReadFile m w = (Inl e, w1)"
  shows "EncryptAll_match X p keys m w = (Some (FailedToEncrypt (filepath_Rel X (RootDir p) m) e), w1)"
  using assms
  by (auto simp: EncryptAll_match_def encryptEnvFile_def encryptRegularFile_def Let_def)

lemma DecryptAll_match_read_error:
  assumes "os_ReadFile m w = (Inl e, w1)"
  shows "DecryptAll_match X p identity m w
           = (Some (FailedToDecrypt (filepath_Rel X (RootDir p) (TrimSuffix m EncryptedExt)) e), w1)"
  using assms
  by (auto simp: DecryptAll_match_def decryptEnvFile_def decryptRegularFile_def Let_def)

lemma EncryptAll_patterns_bad:
  assumes "filepath_BadPattern X (filepath_Join X (RootDir p) pat)"
  shows "EncryptAll_patterns X p keys (pat # ps) c w
           = EncryptAll_patterns X p keys ps c (called (OpGlob (filepath_Join X (RootDir p) pat)) w)"
  using assms by (simp add: filepath_Glob_def)

lemma DecryptAll_patterns_bad:
  assumes "filepath_BadPattern X (filepath_Join X (RootDir p) (pat @ EncryptedExt))"
  shows "DecryptAll_patterns X p identity (pat # ps) c w
           = DecryptAll_patterns X p identity ps c
               (called (OpGlob (filepath_Join X (RootDir p) (pat @ EncryptedExt))) w)"
  using assms by (simp add: filepath_Glob_def)

text \<open>
  What the later revision does, for every input. In a run of \<^verbatim>\<open>EncryptAll\<close> (with
  recipients) or \<^verbatim>\<open>DecryptAll\<close> (with an identity), let the patterns before \<open>pat\<close> and
  the matches of \<open>pat\<close> before \<open>m\<close> be processed without error, and let the step for the
  match \<open>m\<close> fail. Then the batch stops there: it returns the count reached before \<open>m\<close>
  together with the error of the step, the world is the one the failed step left, and
  the later matches and patterns are not touched. The count returned is the number of
  files reported as encrypted (decrypted) by the run. A malformed pattern is passed
  over, and the only trace of it is the call of \<^verbatim>\<open>Glob\<close>. So far the code keeps the
  contract of the batch. It departs from it where a match cannot be read: since the
  read is made inside the helpers, its error comes back as the error of the step, and
  the batch stops as it does when the encryption or the decryption fails.
\<close>

theorem batch_aborts_at_first_failure:
  "(Recipients (Config p) \<noteq> []
      \<and> keys = map RecipientKey (Recipients (Config p))
      \<and> Secrets (Config p) = ps1 @ pat # ps2
      \<and> EncryptAll_patterns X p keys ps1 0 w = ((c1, None), w1)
      \<and> filepath_Glob X (filepath_Join X (RootDir p) pat) w1 = (Inr (ms1 @ m # ms2), w2)
      \<and> EncryptAll_matches X p keys ms1 c1 w2 = ((c2, None), w3)
      \<and> \<not> HasSuffix m EncryptedExt
      \<and> EncryptAll_match X p keys m w3 = (Some e, w4)
    \<longrightarrow> EncryptAll X p w = ((c2, Some e), w4)
        \<and> c2 + reported isMsgEncrypted w = reported isMsgEncrypted w4)
   \<and> (LoadAgeIdentity X v = (Inr identity, v0)
      \<and> Secrets (Config p) = ps1 @ pat # ps2
      \<and> DecryptAll_patterns X p identity ps1 0 v0 = ((d1, None), v1)
      \<and> filepath_Glob X (filepath_Join X (RootDir p) (pat @ EncryptedExt)) v1
          = (Inr (ns1 @ n # ns2), v2)
      \<and> DecryptAll_matches X p identity ns1 d1 v2 = ((d2, None), v3)
      \<and> DecryptAll_match X p identity n v3 = (Some e', v4)
    \<longrightarrow> DecryptAll X p v = ((d2, Some e'), v4)
        \<and> d2 + reported isMsgDecrypted v = reported isMsgDecrypted v4)
   \<and> (os_ReadFile mr wr = (Inl er, wr')
    \<longrightarrow> EncryptAll_match X p keys mr wr
          = (Some (FailedToEncrypt (filepath_Rel X (RootDir p) mr) er), wr'))
   \<and> (os_ReadFile nr vr = (Inl dr, vr')
    \<longrightarrow> DecryptAll_match X p identity nr vr
          = (Some (FailedToDecrypt (filepath_Rel X (RootDir p) (TrimSuffix nr EncryptedExt)) dr),
             vr'))
   \<and> (filepath_BadPattern X (filepath_Join X (RootDir p) bad)
    \<longrightarrow> EncryptAll_patterns X p keys (bad # ps) c wb
          = EncryptAll_patterns X p keys ps c
              (called (OpGlob (filepath_Join X (RootDir p) bad)) wb))
   \<and> (filepath_BadPattern X (filepath_Join X (RootDir p) (bad' @ EncryptedExt))
    \<longrightarrow> DecryptAll_patterns X p identity (bad' # ps') d vb
          = DecryptAll_patterns X p identity ps' d
              (called (OpGlob (filepath_Join X (RootDir p) (bad' @ EncryptedExt))) vb))"
  (is "?E \<and> ?D \<and> ?ER \<and> ?DR \<and> ?EB \<and> ?DB")
proof -
  have enc: "EncryptAll X p w = ((c2, Some e), w4)
           \<and> c2 + reported isMsgEncrypted w = reported isMsgEncrypted w4"
    if h: "Recipients (Config p) \<noteq> []" "keys = map RecipientKey (Recipients (Config p))"
      "Secrets (Config p) = ps1 @ pat # ps2"
      "EncryptAll_patterns X p keys ps1 0 w = ((c1, None), w1)"
      "filepath_Glob X (filepath_Join X (RootDir p) pat) w1 = (Inr (ms1 @ m # ms2), w2)"
      "EncryptAll_matches X p keys ms1 c1 w2 = ((c2, None), w3)"
      "\<not> HasSuffix m EncryptedExt"
      "EncryptAll_match X p keys m w3 = (Some e, w4)"
  proof -
    have inner: "EncryptAll_matches X p keys (ms1 @ m # ms2) c1 w2 = ((c2, Some e), w4)"
      by (rule EncryptAll_matches_abort[OF h(6,7,8)])
    have outer: "EncryptAll_patterns X p keys (ps1 @ pat # ps2) 0 w = ((c2, Some e), w4)"
      by (rule EncryptAll_patterns_abort[OF h(4,5) inner])
    with h(1,2,3) have run: "EncryptAll X p w = ((c2, Some e), w4)"
      by (simp add: EncryptAll_def)
    from EncryptAll_patterns_count[OF outer] run show ?thesis by simp
  qed
  have dec: "DecryptAll X p v = ((d2, Some e'), v4)
           \<and> d2 + reported isMsgDecrypted v = reported isMsgDecrypted v4"
    if h: "LoadAgeIdentity X v = (Inr identity, v0)"
      "Secrets (Config p) = ps1 @ pat # ps2"
      "DecryptAll_patterns X p identity ps1 0 v0 = ((d1, None), v1)"
      "filepath_Glob X (filepath_Join X (RootDir p) (pat @ EncryptedExt)) v1
          = (Inr (ns1 @ n # ns2), v2)"
      "DecryptAll_matches X p identity ns1 d1 v2 = ((d2, None), v3)"
      "DecryptAll_match X p identity n v3 = (Some e', v4)"
  proof -
    have inner: "DecryptAll_matches X p identity (ns1 @ n # ns2) d1 v2 = ((d2, Some e'), v4)"
      by (rule DecryptAll_matches_abort[OF h(5,6)])
    have outer: "DecryptAll_patterns X p identity (ps1 @ pat # ps2) 0 v0 = ((d2, Some e'), v4)"
      by (rule DecryptAll_patterns_abort[OF h(3,4) inner])
    with h(1,2) have run: "DecryptAll X p v = ((d2, Some e'), v4)"
      by (simp add: DecryptAll_def)
    have "stdout v0 = stdout v"
      using h(1)
      by (auto simp: LoadAgeIdentity_def Let_def split: option.splits prod.splits sum.splits if_splits
          dest!: os_ReadFile_stdout)
    then have "reported isMsgDecrypted v0 = reported isMsgDecrypted v" by (simp add: reported_def)
    with DecryptAll_patterns_count[OF outer] show ?thesis using run by simp
  qed
  have E: ?E using enc by blast
  have D: ?D using dec by blast
  have ER: ?ER using EncryptAll_match_read_error by blast
  have DR: ?DR using DecryptAll_match_read_error by blast
  have EB: ?EB using EncryptAll_patterns_bad by blast
  have DB: ?DB using DecryptAll_patterns_bad by blast
  show ?thesis
    by (rule conjI [OF E conjI [OF D conjI [OF ER conjI [OF DR conjI [OF EB DB]]]]])
qed

lemma string_of_bytes_of_string [simp]: "string_of_bytes (bytes_of_string s) = s"
proof -
  have "char_of (unat (of_nat (of_char c) :: byte)) = c" for c :: char
  proof -
    have "unat (of_nat (of_char c) :: byte) = of_char c mod 256"
      by (simp add: unat_of_nat)
    also have "\<dots> = of_char c" by simp
    finally show ?thesis by simp
  qed
  then show ?thesis by (simp add: string_of_bytes_def bytes_of_string_def comp_def)
qed

lemmas run_eval = EncryptAll_def EncryptAll_match_def encryptRegularFile_def encryptEnvFile_def
  AgeEncrypt_def filepath_Glob_def os_ReadFile_def os_WriteFile_def os_Remove_def called_def
  print_def isEnvName_def HasPrefix_def HasSuffix_def EncryptedExt_def toy_ext_def
  sample_project_def sample_world_def alice_def Let_def
  DecryptAll_def DecryptAll_match_def decryptRegularFile_def AgeDecrypt_def LoadAgeIdentity_def
  TrimSuffix_def configDir_def ageKeysFile_def Split_def TrimSpace_ascii isASCII_def asciiSpace_def

lemma enc_h4: "EncryptAll_patterns toy_ext (sample_project [alice]) [''age1alice''] [''[x''] 0 world_unreadable
        = ((0, None), called (OpGlob ''/p/[x'') world_unreadable)"
  by (simp add: run_eval world_unreadable_def)

lemma enc_h5: "filepath_Glob toy_ext (filepath_Join toy_ext (RootDir (sample_project [alice])) ''*.key'')
          (called (OpGlob ''/p/[x'') world_unreadable)
        = (Inr ([''/p/a.key''] @ ''/p/b.key'' # [''/p/c.key'']),
           called (OpGlob ''/p/*.key'') (called (OpGlob ''/p/[x'') world_unreadable))"
  by (simp add: run_eval world_unreadable_def)

lemma enc_h6: "EncryptAll_matches toy_ext (sample_project [alice]) [''age1alice''] [''/p/a.key''] 0
          (called (OpGlob ''/p/*.key'') (called (OpGlob ''/p/[x'') world_unreadable))
        = ((1, None), world_unreadable_a)"
  by (simp add: run_eval world_unreadable_def world_unreadable_a_def)

lemma enc_h8: "EncryptAll_match toy_ext (sample_project [alice]) [''age1alice''] ''/p/b.key'' world_unreadable_a
        = (Some (FailedToEncrypt ''b.key'' (PathError ''open'' ''/p/b.key'')),
           called (OpReadFile ''/p/b.key'') world_unreadable_a)"
  by (simp add: run_eval world_unreadable_a_def)

lemma dec_h1: "LoadAgeIdentity toy_ext world_encrypted
        = (Inr ''AGE-SECRET-KEY-1TOY'', called (OpReadFile ''/home/u/.config/podx/age-keys.txt'') world_encrypted)"
  by (simp add: run_eval world_encrypted_def)

lemma dec_h3: "DecryptAll_patterns toy_ext (sample_project [alice]) ''AGE-SECRET-KEY-1TOY'' [''[x''] 0
          (called (OpReadFile ''/home/u/.config/podx/age-keys.txt'') world_encrypted)
        = ((0, None), called (OpGlob ''/p/[x.podx'')
             (called (OpReadFile ''/home/u/.config/podx/age-keys.txt'') world_encrypted))"
  by (simp add: run_eval world_encrypted_def)

lemma dec_h4: "filepath_Glob toy_ext (filepath_Join toy_ext (RootDir (sample_project [alice])) (''*.key'' @ EncryptedExt))
          (called (OpGlob ''/p/[x.podx'')
             (called (OpReadFile ''/home/u/.config/podx/age-keys.txt'') world_encrypted))
        = (Inr ([''/p/a.key.podx''] @ ''/p/b.key.podx'' # [''/p/c.key.podx'']),
           called (OpGlob ''/p/*.key.podx'') (called (OpGlob ''/p/[x.podx'')
             (called (OpReadFile ''/home/u/.config/podx/age-keys.txt'') world_encrypted)))"
  by (simp add: run_eval world_encrypted_def)

lemma dec_h5: "DecryptAll_matches toy_ext (sample_project [alice]) ''AGE-SECRET-KEY-1TOY'' [''/p/a.key.podx''] 0
          (called (OpGlob ''/p/*.key.podx'') (called (OpGlob ''/p/[x.podx'')
             (called (OpReadFile ''/home/u/.config/podx/age-keys.txt'') world_encrypted)))
        = ((1, None), world_encrypted_a)"
  by (simp add: run_eval world_encrypted_def world_encrypted_a_def)

lemma dec_h6: "DecryptAll_match toy_ext (sample_project [alice]) ''AGE-SECRET-KEY-1TOY'' ''/p/b.key.podx'' world_encrypted_a
        = (Some (FailedToDecrypt ''b.key'' AgeFailedToDecrypt),
           called (OpReadFile ''/p/b.key.podx'') world_encrypted_a)"
  by (simp add: run_eval world_encrypted_a_def)

theorem batch_aborts_at_first_failure_witness:
  "(Recipients (Config (sample_project [alice])) \<noteq> []
      \<and> [''age1alice''] = map RecipientKey (Recipients (Config (sample_project [alice])))
      \<and> Secrets (Config (sample_project [alice])) = [''[x''] @ ''*.key'' # []
      \<and> EncryptAll_patterns toy_ext (sample_project [alice]) [''age1alice''] [''[x''] 0 world_unreadable
          = ((0, None), called (OpGlob ''/p/[x'') world_unreadable)
      \<and> filepath_Glob toy_ext (filepath_Join toy_ext (RootDir (sample_project [alice])) ''*.key'')
            (called (OpGlob ''/p/[x'') world_unreadable)
          = (Inr ([''/p/a.key''] @ ''/p/b.key'' # [''/p/c.key'']),
             called (OpGlob ''/p/*.key'') (called (OpGlob ''/p/[x'') world_unreadable))
      \<and> EncryptAll_matches toy_ext (sample_project [alice]) [''age1alice''] [''/p/a.key''] 0
            (called (OpGlob ''/p/*.key'') (called (OpGlob ''/p/[x'') world_unreadable))
          = ((1, None), world_unreadable_a)
      \<and> \<not> HasSuffix ''/p/b.key'' EncryptedExt
      \<and> EncryptAll_match toy_ext (sample_project [alice]) [''age1alice''] ''/p/b.key'' world_unreadable_a
          = (Some (FailedToEncrypt ''b.key'' (PathError ''open'' ''/p/b.key'')),
             called (OpReadFile ''/p/b.key'') world_unreadable_a))
   \<and> (EncryptAll toy_ext (sample_project [alice]) world_unreadable
         = ((1, Some (FailedToEncrypt ''b.key'' (PathError ''open'' ''/p/b.key''))),
            called (OpReadFile ''/p/b.key'') world_unreadable_a)
      \<and> 1 + reported isMsgEncrypted world_unreadable
         = reported isMsgEncrypted (called (OpReadFile ''/p/b.key'') world_unreadable_a))
   \<and> (LoadAgeIdentity toy_ext world_encrypted
          = (Inr ''AGE-SECRET-KEY-1TOY'',
             called (OpReadFile ''/home/u/.config/podx/age-keys.txt'') world_encrypted)
      \<and> Secrets (Config (sample_project [alice])) = [''[x''] @ ''*.key'' # []
      \<and> DecryptAll_patterns toy_ext (sample_project [alice]) ''AGE-SECRET-KEY-1TOY'' [''[x''] 0
            (called (OpReadFile ''/home/u/.config/podx/age-keys.txt'') world_encrypted)
          = ((0, None), called (OpGlob ''/p/[x.podx'')
               (called (OpReadFile ''/home/u/.config/podx/age-keys.txt'') world_encrypted))
      \<and> filepath_Glob toy_ext
            (filepath_Join toy_ext (RootDir (sample_project [alice])) (''*.key'' @ EncryptedExt))
            (called (OpGlob ''/p/[x.podx'')
               (called (OpReadFile ''/home/u/.config/podx/age-keys.txt'') world_encrypted))
          = (Inr ([''/p/a.key.podx''] @ ''/p/b.key.podx'' # [''/p/c.key.podx'']),
             called (OpGlob ''/p/*.key.podx'') (called (OpGlob ''/p/[x.podx'')
               (called (OpReadFile ''/home/u/.config/podx/age-keys.txt'') world_encrypted)))
      \<and> DecryptAll_matches toy_ext (sample_project [alice]) ''AGE-SECRET-KEY-1TOY''
            [''/p/a.key.podx''] 0
            (called (OpGlob ''/p/*.key.podx'') (called (OpGlob ''/p/[x.podx'')
               (called (OpReadFile ''/home/u/.config/podx/age-keys.txt'') world_encrypted)))
          = ((1, None), world_encrypted_a)
      \<and> DecryptAll_match toy_ext (sample_project [alice]) ''AGE-SECRET-KEY-1TOY''
            ''/p/b.key.podx'' world_encrypted_a
          = (Some (FailedToDecrypt ''b.key'' AgeFailedToDecrypt),
             called (OpReadFile ''/p/b.key.podx'') world_encrypted_a))
   \<and> (DecryptAll toy_ext (sample_project [alice]) world_encrypted
         = ((1, Some (FailedToDecrypt ''b.key'' AgeFailedToDecrypt)),
            called (OpReadFile ''/p/b.key.podx'') world_encrypted_a)
      \<and> 1 + reported isMsgDecrypted world_encrypted
         = reported isMsgDecrypted (called (OpReadFile ''/p/b.key.podx'') world_encrypted_a))
   \<and> os_ReadFile ''/p/b.key'' world_unreadable_a
       = (Inl (PathError ''open'' ''/p/b.key''), called (OpReadFile ''/p/b.key'') world_unreadable_a)
   \<and> EncryptAll_match toy_ext (sample_project [alice]) [''age1alice''] ''/p/b.key'' world_unreadable_a
       = (Some (FailedToEncrypt (filepath_Rel toy_ext (RootDir (sample_project [alice])) ''/p/b.key'')
                 (PathError ''open'' ''/p/b.key'')),
          called (OpReadFile ''/p/b.key'') world_unreadable_a)
   \<and> os_ReadFile ''/p/c.key.podx'' (world_encrypted\<lparr> read_denied := {''/p/c.key.podx''} \<rparr>)
       = (Inl (PathError ''open'' ''/p/c.key.podx''),
          called (OpReadFile ''/p/c.key.podx'')
            (world_encrypted\<lparr> read_denied := {''/p/c.key.podx''} \<rparr>))
   \<and> DecryptAll_match toy_ext (sample_project [alice]) ''AGE-SECRET-KEY-1TOY'' ''/p/c.key.podx''
         (world_encrypted\<lparr> read_denied := {''/p/c.key.podx''} \<rparr>)
       = (Some (FailedToDecrypt
                 (filepath_Rel toy_ext (RootDir (sample_project [alice]))
                    (TrimSuffix ''/p/c.key.podx'' EncryptedExt))
                 (PathError ''open'' ''/p/c.key.podx'')),
          called (OpReadFile ''/p/c.key.podx'')
            (world_encrypted\<lparr> read_denied := {''/p/c.key.podx''} \<rparr>))
   \<and> filepath_BadPattern toy_ext (filepath_Join toy_ext (RootDir (sample_project [alice])) ''[x'')
   \<and> EncryptAll_patterns toy_ext (sample_project [alice]) [''age1alice''] (''[x'' # [''*.key'']) 0
         world_unreadable
       = EncryptAll_patterns toy_ext (sample_project [alice]) [''age1alice''] [''*.key''] 0
           (called (OpGlob (filepath_Join toy_ext (RootDir (sample_project [alice])) ''[x''))
              world_unreadable)
   \<and> filepath_BadPattern toy_ext
         (filepath_Join toy_ext (RootDir (sample_project [alice])) (''[x'' @ EncryptedExt))
   \<and> DecryptAll_patterns toy_ext (sample_project [alice]) ''AGE-SECRET-KEY-1TOY''
         (''[x'' # [''*.key'']) 0 world_encrypted
       = DecryptAll_patterns toy_ext (sample_project [alice]) ''AGE-SECRET-KEY-1TOY'' [''*.key''] 0
           (called (OpGlob (filepath_Join toy_ext (RootDir (sample_project [alice]))
                              (''[x'' @ EncryptedExt)))
              world_encrypted)"
  (is "?HE \<and> ?CE \<and> ?HD \<and> ?CD \<and> ?HER \<and> ?CER \<and> ?HDR \<and> ?CDR
       \<and> ?HEB \<and> ?CEB \<and> ?HDB \<and> ?CDB")
proof -
  have HE: ?HE
    by (intro conjI enc_h4 enc_h5 enc_h6 enc_h8)
       (simp_all add: sample_project_def alice_def HasSuffix_def EncryptedExt_def)
  have HD: ?HD
    by (intro conjI dec_h1 dec_h3 dec_h4 dec_h5 dec_h6)
       (simp_all add: sample_project_def)
  have CE: ?CE
    by (rule batch_aborts_at_first_failure [THEN conjunct1, THEN mp, OF HE])
  have CD: ?CD
    by (rule batch_aborts_at_first_failure
          [THEN conjunct2, THEN conjunct1, THEN mp, OF HD])
  have HER: ?HER
    by (simp add: os_ReadFile_def world_unreadable_a_def)
  have CER: ?CER
    by (rule batch_aborts_at_first_failure
          [THEN conjunct2, THEN conjunct2, THEN conjunct1, THEN mp, OF HER])
  have HDR: ?HDR
    by (simp add: os_ReadFile_def world_encrypted_def)
  have CDR: ?CDR
    by (rule batch_aborts_at_first_failure
          [THEN conjunct2, THEN conjunct2, THEN conjunct2, THEN conjunct1, THEN mp, OF HDR])
  have HEB: ?HEB
    by (simp add: toy_ext_def sample_project_def)
  have CEB: ?CEB
    by (rule batch_aborts_at_first_failure
          [THEN conjunct2, THEN conjunct2, THEN conjunct2, THEN conjunct2, THEN conjunct1,
           THEN mp, OF HEB])
  have HDB: ?HDB
    by (simp add: toy_ext_def sample_project_def EncryptedExt_def)
  have CDB: ?CDB
    by (rule batch_aborts_at_first_failure
          [THEN conjunct2, THEN conjunct2, THEN conjunct2, THEN conjunct2, THEN conjunct2,
           THEN mp, OF HDB])
  show ?thesis
    by (rule conjI [OF HE conjI [OF CE conjI [OF HD conjI [OF CD conjI [OF HER conjI [OF CER
          conjI [OF HDR conjI [OF CDR conjI [OF HEB conjI [OF CEB conjI [OF HDB CDB]]]]]]]]]]])
qed

text \<open>
  C3. The contract of the batch is that the first failure to encrypt or decrypt a
  matched file stops the batch with the count reached so far, and that a matched file
  which cannot be read is only logged and skipped. The later revision of \<^verbatim>\<open>EncryptAll\<close>
  breaks the second half. In the sample project the pattern \<^verbatim>\<open>*.key\<close> matches
  \<^verbatim>\<open>a.key\<close>, \<^verbatim>\<open>b.key\<close> and \<^verbatim>\<open>c.key\<close>, and \<^verbatim>\<open>b.key\<close> cannot be read. The later revision
  encrypts \<^verbatim>\<open>a.key\<close>, then returns the count 1 with the error of the read, wrapped as
  a failure to encrypt; it prints nothing about \<^verbatim>\<open>b.key\<close> and leaves \<^verbatim>\<open>c.key\<close> in
  plaintext. The earlier revision of the same function, on the same input, prints
  that \<^verbatim>\<open>b.key\<close> was skipped, goes on to encrypt \<^verbatim>\<open>c.key\<close>, and returns the count 2 and
  no error.
\<close>

theorem batch_read_error_divergence:
  "EncryptAll toy_ext (sample_project [alice]) world_unreadable
     = ((1, Some (FailedToEncrypt ''b.key'' (PathError ''open'' ''/p/b.key''))),
        called (OpReadFile ''/p/b.key'') world_unreadable_a)
   \<and> stdout (called (OpReadFile ''/p/b.key'') world_unreadable_a)
       = [MsgEncrypted ''a.key'' False, MsgDeletedOriginal ''a.key'']
   \<and> map_of (files (called (OpReadFile ''/p/b.key'') world_unreadable_a)) ''/p/c.key'' = Some [6]
   \<and> map_of (files (called (OpReadFile ''/p/b.key'') world_unreadable_a)) ''/p/c.key.podx'' = None
   \<and> fst (EncryptAll_earlier toy_ext (sample_project [alice]) world_unreadable) = (2, None)
   \<and> stdout (snd (EncryptAll_earlier toy_ext (sample_project [alice]) world_unreadable))
       = [MsgEncrypted ''a.key'' False,
          MsgSkipped ''/p/b.key'' (PathError ''open'' ''/p/b.key''),
          MsgEncrypted ''c.key'' False]
   \<and> map_of (files (snd (EncryptAll_earlier toy_ext (sample_project [alice]) world_unreadable)))
         ''/p/c.key.podx'' = Some [6, 7]"
  by (simp add: run_eval EncryptAll_earlier_def world_unreadable_def world_unreadable_a_def)

lemma encrypt_success_files:
  assumes "(if isEnvName (filepath_Base X m) then encryptEnvFile X m keys w
            else encryptRegularFile X m keys w) = (None, w1)"
  shows "\<exists>d c. map_of (files w) m = Some d \<and> files w1 = AList.update (m @ EncryptedExt) c (files w)"
  using assms
  by (auto simp: encryptEnvFile_def encryptRegularFile_def os_ReadFile_def os_WriteFile_def
      called_def split: if_splits option.splits sum.splits prod.splits)

text \<open>
  C10. When the ciphertext of a match has been written and removing the original fails,
  the failure is printed and nothing else: the loop goes on with the next match and the
  count increased by one, as after a successful removal, and both the original and its
  ciphertext are on disk. A run that returns no error may therefore leave both.
\<close>

theorem failed_deletion_is_not_fatal:
  assumes "\<not> HasSuffix m EncryptedExt"
    and "(if isEnvName (filepath_Base X m) then encryptEnvFile X m keys w
          else encryptRegularFile X m keys w) = (None, w1)"
    and "os_Remove m (print (MsgEncrypted (filepath_Rel X (RootDir p) m)
                               (isEnvName (filepath_Base X m))) w1) = (Some e, w2)"
  shows "EncryptAll_matches X p keys (m # rest) count w
           = EncryptAll_matches X p keys rest (count + 1) (print (MsgCouldNotDeleteOriginal e) w2)
       \<and> files w2 = files w1
       \<and> m \<in> fst ` set (files w2) \<and> m @ EncryptedExt \<in> fst ` set (files w2)"
proof -
  have step: "EncryptAll_match X p keys m w = (None, print (MsgCouldNotDeleteOriginal e) w2)"
    using assms(2,3) by (simp add: EncryptAll_match_def Let_def)
  have loop: "EncryptAll_matches X p keys (m # rest) count w
           = EncryptAll_matches X p keys rest (count + 1) (print (MsgCouldNotDeleteOriginal e) w2)"
    using assms(1) step by simp
  have same: "files w2 = files w1"
    using assms(3) by (auto simp: os_Remove_def called_def print_def split: if_splits)
  from encrypt_success_files[OF assms(2)] obtain d c
    where d: "map_of (files w) m = Some d"
      and c: "files w1 = AList.update (m @ EncryptedExt) c (files w)" by blast
  from d have "m \<in> fst ` set (files w)" by (metis domI dom_map_of_conv_image_fst)
  with c same have "m \<in> fst ` set (files w2)" "m @ EncryptedExt \<in> fst ` set (files w2)"
    by (simp_all add: AList.dom_update)
  with loop same show ?thesis by simp
qed

lemma undeletable_run:
  "fst (EncryptAll toy_ext (sample_project [alice]) world_undeletable) = (3, None)
   \<and> map_of (files (snd (EncryptAll toy_ext (sample_project [alice]) world_undeletable))) ''/p/a.key''
       = Some [1, 2, 3]
   \<and> map_of (files (snd (EncryptAll toy_ext (sample_project [alice]) world_undeletable))) ''/p/a.key.podx''
       = Some [3, 2, 1, 7]
   \<and> stdout (snd (EncryptAll toy_ext (sample_project [alice]) world_undeletable))
       = [MsgEncrypted ''a.key'' False, MsgCouldNotDeleteOriginal (PathError ''remove'' ''/p/a.key''),
          MsgEncrypted ''b.key'' False, MsgDeletedOriginal ''b.key'',
          MsgEncrypted ''c.key'' False, MsgDeletedOriginal ''c.key'']"
  by (simp add: run_eval world_undeletable_def)

theorem failed_deletion_is_not_fatal_witness:
  "\<not> HasSuffix ''/p/a.key'' EncryptedExt
   \<and> (if isEnvName (filepath_Base toy_ext ''/p/a.key'')
       then encryptEnvFile toy_ext ''/p/a.key'' [''age1alice'']
              (called (OpGlob ''/p/*.key'') (called (OpGlob ''/p/[x'') world_undeletable))
       else encryptRegularFile toy_ext ''/p/a.key'' [''age1alice'']
              (called (OpGlob ''/p/*.key'') (called (OpGlob ''/p/[x'') world_undeletable)))
      = (None, world_undeletable_a)
   \<and> os_Remove ''/p/a.key''
        (print (MsgEncrypted (filepath_Rel toy_ext (RootDir (sample_project [alice])) ''/p/a.key'')
                  (isEnvName (filepath_Base toy_ext ''/p/a.key''))) world_undeletable_a)
      = (Some (PathError ''remove'' ''/p/a.key''),
         called (OpRemove ''/p/a.key'') (print (MsgEncrypted ''a.key'' False) world_undeletable_a))
   \<and> (EncryptAll_matches toy_ext (sample_project [alice]) [''age1alice'']
         (''/p/a.key'' # [''/p/b.key'', ''/p/c.key'']) 0
         (called (OpGlob ''/p/*.key'') (called (OpGlob ''/p/[x'') world_undeletable))
        = EncryptAll_matches toy_ext (sample_project [alice]) [''age1alice'']
            [''/p/b.key'', ''/p/c.key''] (0 + 1)
            (print (MsgCouldNotDeleteOriginal (PathError ''remove'' ''/p/a.key''))
               (called (OpRemove ''/p/a.key'')
                  (print (MsgEncrypted ''a.key'' False) world_undeletable_a)))
      \<and> files (called (OpRemove ''/p/a.key'') (print (MsgEncrypted ''a.key'' False) world_undeletable_a))
          = files world_undeletable_a
      \<and> ''/p/a.key'' \<in> fst ` set (files (called (OpRemove ''/p/a.key'')
                                           (print (MsgEncrypted ''a.key'' False) world_undeletable_a)))
      \<and> ''/p/a.key'' @ EncryptedExt
          \<in> fst ` set (files (called (OpRemove ''/p/a.key'')
                                (print (MsgEncrypted ''a.key'' False) world_undeletable_a))))
   \<and> fst (EncryptAll toy_ext (sample_project [alice]) world_undeletable) = (3, None)
   \<and> map_of (files (snd (EncryptAll toy_ext (sample_project [alice]) world_undeletable))) ''/p/a.key''
       = Some [1, 2, 3]
   \<and> map_of (files (snd (EncryptAll toy_ext (sample_project [alice]) world_undeletable))) ''/p/a.key.podx''
       = Some [3, 2, 1, 7]"
  (is "?H1 \<and> ?H2 \<and> ?H3 \<and> ?C \<and> ?R")
proof -
  have H1: ?H1 by (simp add: HasSuffix_def EncryptedExt_def)
  have H2: ?H2 by (simp add: run_eval world_undeletable_def world_undeletable_a_def)
  have H3: ?H3 by (simp add: run_eval world_undeletable_a_def)
  have C: ?C by (rule failed_deletion_is_not_fatal [OF H1 H2 H3])
  have R: ?R using undeletable_run by simp
  show ?thesis by (rule conjI [OF H1 conjI [OF H2 conjI [OF H3 conjI [OF C R]]]])
qed

subsection \<open>Running the batch again\<close>

lemma HasSuffix_append [simp]: "HasSuffix (m @ s) s"
  by (simp add: HasSuffix_def)

lemma paths_simps [simp]:
  "paths (called op w) = paths w"
  "paths (print msg w) = paths w"
  by (simp_all add: paths_def called_def print_def)

lemma os_ReadFile_files: "os_ReadFile path w = (r, w') \<Longrightarrow> files w' = files w"
  by (auto simp: os_ReadFile_def called_def split: if_splits option.splits)

lemma os_WriteFile_paths:
  assumes "os_WriteFile path d w = (r, w')"
  shows "paths w' = (if r = None then insert path (paths w) else paths w)"
proof (cases "path \<in> write_denied w")
  case True
  with assms have "r \<noteq> None" "files w' = files w"
    by (auto simp: os_WriteFile_def called_def)
  then show ?thesis by (auto simp: paths_def)
next
  case False
  with assms have "r = None" "files w' = AList.update path d (files w)"
    by (auto simp: os_WriteFile_def called_def)
  then show ?thesis by (simp add: paths_def AList.dom_update)
qed

lemma dom_delete: "fst ` set (AList.delete k al) = fst ` set al - {k}"
proof -
  have "set (map fst (AList.delete k al)) = set (map fst al) - {k}"
    by (simp add: AList.delete_keys)
  then show ?thesis by simp
qed

lemma os_Remove_paths:
  assumes "os_Remove path w = (r, w')"
  shows "paths w' = (if r = None then paths w - {path} else paths w)"
proof (cases "path \<in> remove_denied w \<or> map_of (files w) path = None")
  case True
  with assms have "r \<noteq> None" "files w' = files w"
    by (auto simp: os_Remove_def called_def)
  then show ?thesis by (auto simp: paths_def)
next
  case False
  with assms have "r = None" "files w' = AList.delete path (files w)"
    by (auto simp: os_Remove_def called_def)
  then show ?thesis by (simp add: paths_def dom_delete)
qed

lemma encrypt_step_paths:
  assumes "(if isEnvName b then encryptEnvFile X m keys w
            else encryptRegularFile X m keys w) = (r, w1)"
  shows "paths w1 = (if r = None then insert (m @ EncryptedExt) (paths w) else paths w)"
proof -
  have rd: "paths wa = paths w" if "os_ReadFile m w = (x, wa)" for x wa
    using os_ReadFile_files[OF that] by (simp add: paths_def)
  show ?thesis
    using assms
    by (auto simp: encryptEnvFile_def encryptRegularFile_def
        split: if_splits prod.splits sum.splits dest!: rd os_WriteFile_paths)
qed

lemma EncryptAll_match_plain:
  assumes "EncryptAll_match X p keys m w = (None, w')"
    and "\<forall>e. MsgCouldNotDeleteOriginal e \<notin> set (stdout w')"
  shows "plain w' = plain w - {m}"
proof -
  let ?b = "filepath_Base X m" and ?rel = "filepath_Rel X (RootDir p) m"
  obtain r1 w1 where enc:
    "(if isEnvName ?b then encryptEnvFile X m keys w else encryptRegularFile X m keys w) = (r1, w1)"
    by (cases "(if isEnvName ?b then encryptEnvFile X m keys w else encryptRegularFile X m keys w)")
  obtain r2 w2 where rm: "os_Remove m (print (MsgEncrypted ?rel (isEnvName ?b)) w1) = (r2, w2)"
    by (cases "os_Remove m (print (MsgEncrypted ?rel (isEnvName ?b)) w1)")
  from assms(1) enc have r1: "r1 = None"
    by (cases r1) (auto simp: EncryptAll_match_def Let_def)
  have r2: "r2 = None"
  proof (cases r2)
    case (Some e)
    with assms(1) enc rm r1 have "w' = print (MsgCouldNotDeleteOriginal e) w2"
      by (simp add: EncryptAll_match_def Let_def)
    then have "MsgCouldNotDeleteOriginal e \<in> set (stdout w')" by (simp add: print_def)
    with assms(2) show ?thesis by blast
  qed simp
  from assms(1) enc rm r1 r2 have w': "w' = print (MsgDeletedOriginal ?rel) w2"
    by (simp add: EncryptAll_match_def Let_def)
  from encrypt_step_paths[OF enc] r1 have p1: "paths w1 = insert (m @ EncryptedExt) (paths w)"
    by simp
  from os_Remove_paths[OF rm] r2 have p2: "paths w2 = paths w1 - {m}" by simp
  have "paths w' = paths w2" unfolding w' by (simp only: paths_simps)
  also have "\<dots> = paths w1 - {m}" by (rule p2)
  also have "\<dots> = insert (m @ EncryptedExt) (paths w) - {m}" by (simp only: p1)
  finally have pw: "paths w' = insert (m @ EncryptedExt) (paths w) - {m}" .
  have "HasSuffix (m @ EncryptedExt) EncryptedExt" by (rule HasSuffix_append)
  then show ?thesis unfolding plain_def pw by blast
qed

lemma stdout_mono_match:
  "EncryptAll_match X p keys m w = (r, w') \<Longrightarrow> set (stdout w) \<subseteq> set (stdout w')"
  using EncryptAll_match_stdout[of X p keys m w r w']
  by (cases r) auto

lemma EncryptAll_matches_stdout_mono:
  "EncryptAll_matches X p keys ms c w = (res, w') \<Longrightarrow> set (stdout w) \<subseteq> set (stdout w')"
proof (induction ms arbitrary: c w)
  case Nil
  then show ?case by simp
next
  case (Cons m ms)
  show ?case
  proof (cases "HasSuffix m EncryptedExt")
    case True
    with Cons show ?thesis by simp
  next
    case False
    obtain r1 w1 where st: "EncryptAll_match X p keys m w = (r1, w1)"
      by (cases "EncryptAll_match X p keys m w")
    note m1 = stdout_mono_match[OF st]
    show ?thesis
    proof (cases r1)
      case (Some e)
      with False st Cons.prems m1 show ?thesis by auto
    next
      case None
      with False st Cons.prems
      have "EncryptAll_matches X p keys ms (c + 1) w1 = (res, w')" by simp
      from Cons.IH[OF this] m1 show ?thesis by blast
    qed
  qed
qed

lemma EncryptAll_patterns_stdout_mono:
  "EncryptAll_patterns X p keys ps c w = (res, w') \<Longrightarrow> set (stdout w) \<subseteq> set (stdout w')"
proof (induction ps arbitrary: c w)
  case Nil
  then show ?case by simp
next
  case (Cons pat ps)
  obtain g w1 where gl: "filepath_Glob X (filepath_Join X (RootDir p) pat) w = (g, w1)"
    by (cases "filepath_Glob X (filepath_Join X (RootDir p) pat) w")
  note sg = filepath_Glob_stdout[OF gl]
  show ?case
  proof (cases g)
    case (Inl e)
    with gl Cons.prems have "EncryptAll_patterns X p keys ps c w1 = (res, w')" by simp
    from Cons.IH[OF this] sg show ?thesis by simp
  next
    case (Inr ms)
    obtain c1 r1 w2 where inner: "EncryptAll_matches X p keys ms c w1 = ((c1, r1), w2)"
      by (cases "EncryptAll_matches X p keys ms c w1") auto
    note mi = EncryptAll_matches_stdout_mono[OF inner]
    show ?thesis
    proof (cases r1)
      case (Some e)
      with Inr gl inner Cons.prems mi sg show ?thesis by auto
    next
      case None
      with Inr gl inner Cons.prems
      have "EncryptAll_patterns X p keys ps c1 w2 = (res, w')" by simp
      from Cons.IH[OF this] mi sg show ?thesis by auto
    qed
  qed
qed

lemma EncryptAll_matches_plain:
  assumes "EncryptAll_matches X p keys ms c w = ((c', None), w')"
    and "\<forall>e. MsgCouldNotDeleteOriginal e \<notin> set (stdout w')"
  shows "plain w' = plain w - set ms"
  using assms
proof (induction ms arbitrary: c w)
  case Nil
  then show ?case by simp
next
  case (Cons m ms)
  show ?case
  proof (cases "HasSuffix m EncryptedExt")
    case True
    with Cons.prems have "EncryptAll_matches X p keys ms c w = ((c', None), w')" by simp
    from Cons.IH[OF this Cons.prems(2)] True show ?thesis by (auto simp: plain_def)
  next
    case False
    obtain r1 w1 where st: "EncryptAll_match X p keys m w = (r1, w1)"
      by (cases "EncryptAll_match X p keys m w")
    show ?thesis
    proof (cases r1)
      case (Some e)
      with False st Cons.prems show ?thesis by auto
    next
      case None
      with False st Cons.prems
      have rest: "EncryptAll_matches X p keys ms (c + 1) w1 = ((c', None), w')" by simp
      from EncryptAll_matches_stdout_mono[OF rest] Cons.prems(2)
      have "\<forall>e. MsgCouldNotDeleteOriginal e \<notin> set (stdout w1)" by blast
      from EncryptAll_match_plain[OF st[unfolded None] this]
      have "plain w1 = plain w - {m}" .
      with Cons.IH[OF rest Cons.prems(2)] show ?thesis by auto
    qed
  qed
qed

lemma plain_simps [simp]:
  "plain (called op w) = plain w"
  "plain (print msg w) = plain w"
  by (simp_all add: plain_def)

lemma filepath_Glob_good:
  assumes "\<not> filepath_BadPattern X pattern"
  shows "filepath_Glob X pattern w
           = (Inr (filter (filepath_Match X pattern) (map fst (files w))), called (OpGlob pattern) w)"
  using assms by (simp add: filepath_Glob_def)

lemma filepath_Glob_bad:
  assumes "filepath_BadPattern X pattern"
  shows "filepath_Glob X pattern w = (Inl ErrBadPattern, called (OpGlob pattern) w)"
  using assms by (simp add: filepath_Glob_def)

lemma EncryptAll_patterns_plain:
  assumes "EncryptAll_patterns X p keys ps c w = ((c', None), w')"
    and "\<forall>e. MsgCouldNotDeleteOriginal e \<notin> set (stdout w')"
  shows "plain w' \<subseteq> plain w
       \<and> (\<forall>pat \<in> set ps. \<not> filepath_BadPattern X (filepath_Join X (RootDir p) pat) \<longrightarrow>
            (\<forall>x \<in> plain w'. \<not> filepath_Match X (filepath_Join X (RootDir p) pat) x))"
  using assms
proof (induction ps arbitrary: c w)
  case Nil
  then show ?case by simp
next
  case (Cons pat ps)
  let ?J = "filepath_Join X (RootDir p) pat"
  show ?case
  proof (cases "filepath_BadPattern X ?J")
    case True
    with Cons.prems(1)
    have rest: "EncryptAll_patterns X p keys ps c (called (OpGlob ?J) w) = ((c', None), w')"
      by (simp add: filepath_Glob_bad)
    from Cons.IH[OF rest Cons.prems(2)] True show ?thesis by simp
  next
    case False
    let ?ms = "filter (filepath_Match X ?J) (map fst (files w))"
    obtain c1 r1 w2 where
      inner: "EncryptAll_matches X p keys ?ms c (called (OpGlob ?J) w) = ((c1, r1), w2)"
      by (cases "EncryptAll_matches X p keys ?ms c (called (OpGlob ?J) w)") auto
    have r1: "r1 = None"
    proof (cases r1)
      case (Some e)
      with False inner Cons.prems(1) show ?thesis by (simp add: filepath_Glob_good)
    qed simp
    with False inner Cons.prems(1)
    have rest: "EncryptAll_patterns X p keys ps c1 w2 = ((c', None), w')"
      by (simp add: filepath_Glob_good)
    from EncryptAll_patterns_stdout_mono[OF rest] Cons.prems(2)
    have nd2: "\<forall>e. MsgCouldNotDeleteOriginal e \<notin> set (stdout w2)" by blast
    from EncryptAll_matches_plain[OF inner[unfolded r1] nd2]
    have p2: "plain w2 = plain w - set ?ms" by simp
    note IH = Cons.IH[OF rest Cons.prems(2)]
    from IH p2 have sub: "plain w' \<subseteq> plain w" by blast
    have here: "\<forall>x \<in> plain w'. \<not> filepath_Match X ?J x"
    proof
      fix x assume "x \<in> plain w'"
      with IH p2 have x: "x \<in> plain w" "x \<notin> set ?ms" by blast+
      then have "x \<in> fst ` set (files w)" by (simp add: plain_def paths_def)
      with x(2) show "\<not> filepath_Match X ?J x" by simp
    qed
    from sub here IH show ?thesis by simp
  qed
qed

lemma EncryptAll_matches_all_encrypted:
  assumes "\<forall>m \<in> set ms. HasSuffix m EncryptedExt"
  shows "EncryptAll_matches X p keys ms c w = ((c, None), w)"
  using assms by (induction ms) simp_all

lemma EncryptAll_patterns_settled:
  assumes "\<forall>pat \<in> set ps. \<not> filepath_BadPattern X (filepath_Join X (RootDir p) pat) \<longrightarrow>
             (\<forall>x \<in> plain w. \<not> filepath_Match X (filepath_Join X (RootDir p) pat) x)"
  shows "EncryptAll_patterns X p keys ps c w
           = ((c, None),
              w\<lparr> ops := ops w @ map (\<lambda>pat. OpGlob (filepath_Join X (RootDir p) pat)) ps \<rparr>)"
  using assms
proof (induction ps arbitrary: w)
  case Nil
  then show ?case by simp
next
  case (Cons pat ps)
  let ?J = "filepath_Join X (RootDir p) pat"
  let ?w1 = "called (OpGlob ?J) w"
  have hyp: "\<forall>pat \<in> set ps. \<not> filepath_BadPattern X (filepath_Join X (RootDir p) pat) \<longrightarrow>
             (\<forall>x \<in> plain ?w1. \<not> filepath_Match X (filepath_Join X (RootDir p) pat) x)"
    using Cons.prems by simp
  have fin: "?w1\<lparr> ops := ops ?w1 @ map (\<lambda>pat. OpGlob (filepath_Join X (RootDir p) pat)) ps \<rparr>
           = w\<lparr> ops := ops w @ map (\<lambda>pat. OpGlob (filepath_Join X (RootDir p) pat)) (pat # ps) \<rparr>"
    by (simp add: called_def)
  show ?case
  proof (cases "filepath_BadPattern X ?J")
    case True
    then show ?thesis using Cons.IH[OF hyp] fin by (simp add: filepath_Glob_bad)
  next
    case False
    let ?ms = "filter (filepath_Match X ?J) (map fst (files w))"
    have "\<forall>m \<in> set ?ms. HasSuffix m EncryptedExt"
    proof
      fix m assume "m \<in> set ?ms"
      then have m: "m \<in> paths w" "filepath_Match X ?J m" by (auto simp: paths_def)
      with Cons.prems False have "m \<notin> plain w" by auto
      with m(1) show "HasSuffix m EncryptedExt" by (simp add: plain_def)
    qed
    then have "EncryptAll_matches X p keys ?ms c ?w1 = ((c, None), ?w1)"
      by (rule EncryptAll_matches_all_encrypted)
    with False show ?thesis using Cons.IH[OF hyp] fin by (simp add: filepath_Glob_good)
  qed
qed

text \<open>
  C6. When a run of \<^verbatim>\<open>EncryptAll\<close> has returned without error and has not reported a
  failed removal, a second run right after it returns the count 0 and no error, and
  changes no file: it only globs the patterns again, reads, writes and removes nothing,
  and prints nothing. Every match it finds carries the extension \<^verbatim>\<open>.podx\<close>, since the
  plaintext files that matched a pattern are gone.
\<close>

theorem encrypt_all_twice:
  assumes "EncryptAll X p w = ((n, None), w1)"
    and "\<forall>e. MsgCouldNotDeleteOriginal e \<notin> set (stdout w1)"
  shows "EncryptAll X p w1
           = ((0, None),
              w1\<lparr> ops := ops w1 @ map (\<lambda>pat. OpGlob (filepath_Join X (RootDir p) pat))
                                      (Secrets (Config p)) \<rparr>)"
proof -
  from assms(1) have rs: "length (Recipients (Config p)) \<noteq> 0"
    by (auto simp: EncryptAll_def split: if_splits)
  with assms(1) have run:
    "EncryptAll_patterns X p (map RecipientKey (Recipients (Config p))) (Secrets (Config p)) 0 w
       = ((n, None), w1)"
    by (simp add: EncryptAll_def)
  from EncryptAll_patterns_plain[OF run assms(2)]
  have "\<forall>pat \<in> set (Secrets (Config p)).
          \<not> filepath_BadPattern X (filepath_Join X (RootDir p) pat) \<longrightarrow>
          (\<forall>x \<in> plain w1. \<not> filepath_Match X (filepath_Join X (RootDir p) pat) x)"
    by blast
  from EncryptAll_patterns_settled[OF this] rs show ?thesis
    by (simp add: EncryptAll_def)
qed

lemma first_run:
  "EncryptAll toy_ext sample_project_star sample_world = ((3, None), world_done)"
  by (simp add: run_eval sample_project_star_def world_done_def)

theorem encrypt_all_twice_witness:
  "EncryptAll toy_ext sample_project_star sample_world = ((3, None), world_done)
   \<and> (\<forall>e. MsgCouldNotDeleteOriginal e \<notin> set (stdout world_done))
   \<and> EncryptAll toy_ext sample_project_star world_done
       = ((0, None),
          world_done\<lparr> ops := ops world_done
             @ map (\<lambda>pat. OpGlob (filepath_Join toy_ext (RootDir sample_project_star) pat))
                 (Secrets (Config sample_project_star)) \<rparr>)"
proof -
  have nd: "\<forall>e. MsgCouldNotDeleteOriginal e \<notin> set (stdout world_done)"
    by (simp add: world_done_def)
  show ?thesis
    by (rule conjI [OF first_run conjI [OF nd encrypt_all_twice [OF first_run nd]]])
qed

end
